theory Spec2Isabelle
  imports Main "HOL-Library.Multiset" "HOL-Library.Sublist"
begin

section \<open>The camera re-posing script \<^verbatim>\<open>infinigen_examples/place_cameras.py\<close>\<close>

text \<open>
  The script is glue over a host application (Blender, through \<^verbatim>\<open>bpy\<close>) and the
  surrounding framework (\<^verbatim>\<open>infinigen.core\<close>). Its three functions are embedded as
  programs over an explicit world: the in-memory scene \<^verbatim>\<open>bpy.data\<close> and the scene
  files on disk. A program returns an outcome (\<open>Inl\<close> an exception, \<open>Inr\<close> a value),
  the world it leaves behind (also when it raises: a Python exception does not undo
  mutations), and the list of external calls it issued, each with the error it raised,
  if any.
\<close>

subsection \<open>Scene objects, scene state, world\<close>

datatype tag = Semantics_Room | Subpart_SupportSurface | Other_tag string

record bobject =
  name :: string
  otype :: string

record scene =
  objects :: "bobject list"
  collections :: "string \<rightharpoonup> bobject list"

record world =
  bpy_data :: scene
  disk :: "string \<rightharpoonup> scene"

datatype error = FileNotFound string | Failure string

datatype 'p call =
    OpenMainfile string
  | ObjectDelete "bobject list"
  | GetTags bobject
  | CameraSelectionPreprocessing "bobject option" "bobject list"
  | SpawnCameraRigs
  | ExtractTaggedFaces bobject "tag set"
  | JoinObjects "bobject list"
  | ComputePoses "bobject list" 'p bobject "bobject list"
  | Delete bobject
  | SaveAsMainfile string

type_synonym 'p event = "'p call \<times> error option"

type_synonym ('p, 'a) prog = "world \<Rightarrow> (error + 'a) \<times> world \<times> 'p event list"

definition result :: "('p, 'a) prog \<Rightarrow> world \<Rightarrow> error + 'a" where
  "result m w = fst (m w)"

definition final :: "('p, 'a) prog \<Rightarrow> world \<Rightarrow> world" where
  "final m w = fst (snd (m w))"

definition events :: "('p, 'a) prog \<Rightarrow> world \<Rightarrow> 'p event list" where
  "events m w = snd (snd (m w))"

subsection \<open>Sequencing, exceptions and external calls\<close>

definition return_prog :: "'a \<Rightarrow> ('p, 'a) prog" where
  "return_prog x w = (Inr x, w, [])"

text \<open>
  Statement sequencing: an exception in the first statement ends the program there,
  with the world as that statement left it.
\<close>

definition bind_prog :: "('p, 'a) prog \<Rightarrow> ('a \<Rightarrow> ('p, 'b) prog) \<Rightarrow> ('p, 'b) prog" where
  "bind_prog m f w =
     (case m w of
        (Inl e, w1, evs1) \<Rightarrow> (Inl e, w1, evs1)
      | (Inr x, w1, evs1) \<Rightarrow> (case f x w1 of (r, w2, evs2) \<Rightarrow> (r, w2, evs1 @ evs2)))"

definition outcome :: "error + 'a \<Rightarrow> error option" where
  "outcome r = (case r of Inl e \<Rightarrow> Some e | Inr _ \<Rightarrow> None)"

text \<open>
  A call of an external collaborator that works on the in-memory scene: it may raise,
  it may change the scene, and it is recorded with its outcome.
\<close>

definition call_scene :: "'p call \<Rightarrow> (scene \<Rightarrow> (error + 'a) \<times> scene) \<Rightarrow> ('p, 'a) prog" where
  "call_scene c f w =
     (case f (bpy_data w) of (r, s) \<Rightarrow> (r, w\<lparr>bpy_data := s\<rparr>, [(c, outcome r)]))"

text \<open>List comprehensions whose element expression or condition calls a collaborator.\<close>

primrec filter_prog :: "('a \<Rightarrow> ('p, bool) prog) \<Rightarrow> 'a list \<Rightarrow> ('p, 'a list) prog" where
  "filter_prog p [] = return_prog []"
| "filter_prog p (x # xs) =
     bind_prog (p x) (\<lambda>b.
     bind_prog (filter_prog p xs) (\<lambda>ys.
     return_prog (if b then x # ys else ys)))"

primrec map_prog :: "('a \<Rightarrow> ('p, 'b) prog) \<Rightarrow> 'a list \<Rightarrow> ('p, 'b list) prog" where
  "map_prog f [] = return_prog []"
| "map_prog f (x # xs) =
     bind_prog (f x) (\<lambda>y.
     bind_prog (map_prog f xs) (\<lambda>ys.
     return_prog (y # ys)))"

subsection \<open>The collaborators whose code is outside the script\<close>

text \<open>
  The framework functions the script calls (\<^verbatim>\<open>tagging.get_tags\<close>,
  \<^verbatim>\<open>placement.camera.camera_selection_preprocessing\<close>,
  \<^verbatim>\<open>placement.camera.spawn_camera_rigs\<close>, \<^verbatim>\<open>tagging.extract_tagged_faces\<close>,
  \<^verbatim>\<open>butil.join_objects\<close>, \<^verbatim>\<open>cam_traj.compute_poses\<close>) are parameters: each takes
  its arguments and the scene, and returns an exception or a value, and the scene as it
  leaves it. The preprocessed-scene token is of an arbitrary type \<open>'p\<close>.
\<close>

record 'p host =
  get_tags :: "bobject \<Rightarrow> scene \<Rightarrow> (error + tag set) \<times> scene"
  camera_selection_preprocessing ::
    "bobject option \<Rightarrow> bobject list \<Rightarrow> scene \<Rightarrow> (error + 'p) \<times> scene"
  spawn_camera_rigs :: "scene \<Rightarrow> (error + bobject list) \<times> scene"
  extract_tagged_faces :: "bobject \<Rightarrow> tag set \<Rightarrow> scene \<Rightarrow> (error + bobject) \<times> scene"
  join_objects :: "bobject list \<Rightarrow> scene \<Rightarrow> (error + bobject) \<times> scene"
  compute_poses ::
    "bobject list \<Rightarrow> 'p \<Rightarrow> bobject \<Rightarrow> bobject list \<Rightarrow> scene \<Rightarrow> (error + unit) \<times> scene"

text \<open>
  Modelled from the spec: the host's object deletion (\<^verbatim>\<open>bpy.ops.object.delete\<close> under
  \<^verbatim>\<open>butil.SelectObjects\<close>, and \<^verbatim>\<open>butil.delete\<close>), whose code is not part of the
  script. The spec describes it as deleting every given object from the scene state as
  a single batch (select, then delete): the objects leave the scene's object list and
  every collection they were members of; nothing else changes and it does not fail.
\<close>

definition delete_objs :: "bobject list \<Rightarrow> scene \<Rightarrow> scene" where
  "delete_objs xs s =
     s\<lparr>objects := filter (\<lambda>ob. ob \<notin> set xs) (objects s),
       collections := (\<lambda>k. map_option (filter (\<lambda>ob. ob \<notin> set xs)) (collections s k))\<rparr>"

definition select_objects_delete :: "bobject list \<Rightarrow> ('p, unit) prog" where
  "select_objects_delete xs = call_scene (ObjectDelete xs) (\<lambda>s. (Inr (), delete_objs xs s))"

definition butil_delete :: "bobject \<Rightarrow> ('p, unit) prog" where
  "butil_delete x = call_scene (Delete x) (\<lambda>s. (Inr (), delete_objs [x] s))"

text \<open>
  Modelled from the spec: the host's load and save (\<^verbatim>\<open>bpy.ops.wm.open_mainfile\<close>,
  \<^verbatim>\<open>bpy.ops.wm.save_as_mainfile\<close>). Loading opens a persisted scene file into the
  in-memory scene state and fails on a missing file; saving persists the in-memory scene
  under the given file path.
\<close>

definition open_mainfile :: "string \<Rightarrow> ('p, unit) prog" where
  "open_mainfile filepath w =
     (case disk w filepath of
        None \<Rightarrow> (Inl (FileNotFound filepath), w,
                   [(OpenMainfile filepath, Some (FileNotFound filepath))])
      | Some s \<Rightarrow> (Inr (), w\<lparr>bpy_data := s\<rparr>, [(OpenMainfile filepath, None)]))"

definition save_as_mainfile :: "string \<Rightarrow> ('p, unit) prog" where
  "save_as_mainfile filepath w =
     (Inr (), w\<lparr>disk := (disk w)(filepath \<mapsto> bpy_data w)\<rparr>, [(SaveAsMainfile filepath, None)])"

subsection \<open>Paths (\<^verbatim>\<open>pathlib\<close>, POSIX flavour)\<close>

datatype path = Path (root: string) (parts: "string list")

primrec split_sep :: "char \<Rightarrow> string \<Rightarrow> string list" where
  "split_sep c [] = [[]]"
| "split_sep c (x # xs) =
     (if x = c then [] # split_sep c xs
      else (case split_sep c xs of [] \<Rightarrow> [[x]] | y # ys \<Rightarrow> (x # y) # ys))"

definition root_of :: "string \<Rightarrow> string" where
  "root_of s =
     (if take 2 s = ''//'' \<and> take 3 s \<noteq> ''///'' then ''//''
      else if take 1 s = ''/'' then ''/'' else [])"

definition path_of_string :: "string \<Rightarrow> path" where
  "path_of_string s =
     Path (root_of s) (filter (\<lambda>x. x \<noteq> [] \<and> x \<noteq> ''.'') (split_sep CHR ''/'' s))"

text \<open>\<^verbatim>\<open>p / s\<close> for a string \<open>s\<close>: an absolute right operand replaces the left one.\<close>

definition truediv :: "path \<Rightarrow> string \<Rightarrow> path" where
  "truediv p s =
     (if root_of s \<noteq> [] then path_of_string s
      else Path (root p) (parts p @ parts (path_of_string s)))"

definition path_name :: "path \<Rightarrow> string" where
  "path_name p = (if parts p = [] then [] else last (parts p))"

definition parent :: "path \<Rightarrow> path" where
  "parent p = Path (root p) (butlast (parts p))"

text \<open>\<^verbatim>\<open>str.rfind\<close> for one character: the highest index, or \<open>-1\<close>.\<close>

primrec rfind :: "char \<Rightarrow> string \<Rightarrow> int" where
  "rfind c [] = - 1"
| "rfind c (x # xs) =
     (let i = rfind c xs in if 0 \<le> i then i + 1 else if x = c then 0 else - 1)"

definition stem :: "path \<Rightarrow> string" where
  "stem p =
     (let nm = path_name p; i = rfind CHR ''.'' nm
      in if 0 < i \<and> i < int (length nm) - 1 then take (nat i) nm else nm)"

primrec join_sep :: "string \<Rightarrow> string list \<Rightarrow> string" where
  "join_sep sep [] = []"
| "join_sep sep (x # xs) = (if xs = [] then x else x @ sep @ join_sep sep xs)"

definition str :: "path \<Rightarrow> string" where
  "str p = (if root p = [] \<and> parts p = [] then ''.'' else root p @ join_sep ''/'' (parts p))"

record args =
  input_blend :: path
  output_folder :: path

subsection \<open>The script's functions\<close>

definition delete_existing_camera_rigs :: "('p, unit) prog" where
  "delete_existing_camera_rigs w =
     (case collections (bpy_data w) ''camera_rigs'' of
        None \<Rightarrow> return_prog () w
      | Some rig_collection \<Rightarrow>
          (let objects_to_delete = rig_collection
           in if objects_to_delete = [] then return_prog () w
              else select_objects_delete objects_to_delete w))"

definition all_objs :: "scene \<Rightarrow> bobject list" where
  "all_objs s = filter (\<lambda>ob. otype ob = ''MESH'') (objects s)"

definition get_tags_call :: "'p host \<Rightarrow> bobject \<Rightarrow> ('p, tag set) prog" where
  "get_tags_call h ob = call_scene (GetTags ob) (get_tags h ob)"

definition reconstruct_scene_vars ::
  "'p host \<Rightarrow> ('p, bobject list \<times> bobject list \<times> bobject list) prog" where
  "reconstruct_scene_vars h =
     bind_prog (\<lambda>w. return_prog (all_objs (bpy_data w)) w) (\<lambda>mesh_objs.
     bind_prog (filter_prog (\<lambda>ob. bind_prog (get_tags_call h ob)
                  (\<lambda>ts. return_prog (Semantics_Room \<in> ts))) mesh_objs) (\<lambda>room_objs.
     bind_prog (filter_prog (\<lambda>ob. bind_prog (get_tags_call h ob)
                  (\<lambda>ts. return_prog (Semantics_Room \<notin> ts))) mesh_objs) (\<lambda>nonroom_objs.
     return_prog (room_objs, nonroom_objs, room_objs @ nonroom_objs))))"

definition output_path :: "args \<Rightarrow> path" where
  "output_path a = truediv (output_folder a) (stem (input_blend a) @ ''_with_new_cameras.blend'')"

definition re_pose_cameras :: "'p host \<Rightarrow> args \<Rightarrow> ('p, unit) prog" where
  "re_pose_cameras h a =
     bind_prog (open_mainfile (str (input_blend a))) (\<lambda>_.
     bind_prog delete_existing_camera_rigs (\<lambda>_.
     bind_prog (reconstruct_scene_vars h) (\<lambda>(solved_rooms, nonroom_objs, scene_objs).
     bind_prog (call_scene (CameraSelectionPreprocessing None scene_objs)
                  (camera_selection_preprocessing h None scene_objs)) (\<lambda>scene_preprocessed.
     bind_prog (call_scene SpawnCameraRigs (spawn_camera_rigs h)) (\<lambda>camera_rigs.
     bind_prog (map_prog (\<lambda>ob. call_scene (ExtractTaggedFaces ob {Subpart_SupportSurface})
                  (extract_tagged_faces h ob {Subpart_SupportSurface})) solved_rooms) (\<lambda>faces.
     bind_prog (call_scene (JoinObjects faces) (join_objects h faces)) (\<lambda>solved_floor_surface.
     bind_prog (call_scene
                  (ComputePoses camera_rigs scene_preprocessed solved_floor_surface nonroom_objs)
                  (compute_poses h camera_rigs scene_preprocessed solved_floor_surface
                     nonroom_objs)) (\<lambda>_.
     bind_prog (butil_delete solved_floor_surface) (\<lambda>_.
     save_as_mainfile (str (output_path a)))))))))))"

subsection \<open>A single-pass reference classifier\<close>

text \<open>
  The classifier as the specification describes it: one pass over the mesh objects,
  one tag lookup per object, each object put into the room list or the other list.
\<close>

primrec classify_single_pass ::
  "'p host \<Rightarrow> bobject list \<Rightarrow> ('p, bobject list \<times> bobject list) prog" where
  "classify_single_pass h [] = return_prog ([], [])"
| "classify_single_pass h (x # xs) =
     bind_prog (get_tags_call h x) (\<lambda>ts.
     bind_prog (classify_single_pass h xs) (\<lambda>(room_objs, nonroom_objs).
     return_prog (if Semantics_Room \<in> ts then (x # room_objs, nonroom_objs)
                  else (room_objs, x # nonroom_objs))))"

definition reconstruct_scene_vars_single_pass ::
  "'p host \<Rightarrow> ('p, bobject list \<times> bobject list \<times> bobject list) prog" where
  "reconstruct_scene_vars_single_pass h =
     bind_prog (\<lambda>w. return_prog (all_objs (bpy_data w)) w) (\<lambda>mesh_objs.
     bind_prog (classify_single_pass h mesh_objs) (\<lambda>(room_objs, nonroom_objs).
     return_prog (room_objs, nonroom_objs, room_objs @ nonroom_objs)))"

text \<open>How often the tags of an object were looked up in a list of calls.\<close>

definition tag_lookups :: "'p event list \<Rightarrow> bobject \<Rightarrow> nat" where
  "tag_lookups evs ob = length (filter (\<lambda>ev. fst ev = GetTags ob) evs)"

subsection \<open>Calls before the solver\<close>

text \<open>
  Every call the workflow issues before the trajectory solver: all but the solver call,
  the deletion of the floor surface and the save.
\<close>

definition is_prefix_call :: "'p call \<Rightarrow> bool" where
  "is_prefix_call c =
     (case c of ComputePoses _ _ _ _ \<Rightarrow> False | Delete _ \<Rightarrow> False
      | SaveAsMainfile _ \<Rightarrow> False | _ \<Rightarrow> True)"

definition is_save :: "'p call \<Rightarrow> bool" where
  "is_save c = (case c of SaveAsMainfile _ \<Rightarrow> True | _ \<Rightarrow> False)"

definition is_extract :: "'p call \<Rightarrow> bool" where
  "is_extract c = (case c of ExtractTaggedFaces _ _ \<Rightarrow> True | _ \<Rightarrow> False)"

subsection \<open>Concrete scenes and collaborators\<close>

definition wall :: bobject where
  "wall = \<lparr>name = ''room_0'', otype = ''MESH''\<rparr>"

definition chair :: bobject where
  "chair = \<lparr>name = ''chair'', otype = ''MESH''\<rparr>"

definition lamp :: bobject where
  "lamp = \<lparr>name = ''lamp'', otype = ''LIGHT''\<rparr>"

definition old_rig :: bobject where
  "old_rig = \<lparr>name = ''camrig_old'', otype = ''CAMERA''\<rparr>"

definition new_rig :: bobject where
  "new_rig = \<lparr>name = ''camrig_new'', otype = ''CAMERA''\<rparr>"

definition floor_surface :: bobject where
  "floor_surface = \<lparr>name = ''floor'', otype = ''MESH''\<rparr>"

text \<open>
  A host whose collaborators all succeed: the object named \<open>room_0\<close> carries the Room
  tag, spawning adds one rig to the scene and to the rig collection, extraction adds a
  face object, joining replaces the given objects by one new floor object, and the
  solver changes nothing.
\<close>

definition demo_host :: "nat host" where
  "demo_host =
     \<lparr>get_tags = (\<lambda>ob s. (Inr (if name ob = ''room_0'' then {Semantics_Room} else {}), s)),
      camera_selection_preprocessing = (\<lambda>terrain obs s. (Inr (length obs), s)),
      spawn_camera_rigs = (\<lambda>s. (Inr [new_rig],
         s\<lparr>objects := objects s @ [new_rig],
           collections := (collections s)(''camera_rigs'' \<mapsto> [new_rig])\<rparr>)),
      extract_tagged_faces = (\<lambda>ob ts s. (Inr (ob\<lparr>name := name ob @ ''.faces''\<rparr>),
         s\<lparr>objects := objects s @ [ob\<lparr>name := name ob @ ''.faces''\<rparr>]\<rparr>)),
      join_objects = (\<lambda>obs s. (Inr floor_surface,
         s\<lparr>objects := filter (\<lambda>ob. ob \<notin> set obs) (objects s) @ [floor_surface]\<rparr>)),
      compute_poses = (\<lambda>rigs tok surf nonrooms s. (Inr (), s))\<rparr>"

text \<open>The same host with a solver that raises.\<close>

definition failing_solver_host :: "nat host" where
  "failing_solver_host =
     demo_host\<lparr>compute_poses := (\<lambda>rigs tok surf nonrooms s. (Inl (Failure ''solver''), s))\<rparr>"

definition demo_scene :: scene where
  "demo_scene = \<lparr>objects = [wall, chair, lamp, old_rig],
                  collections = [''camera_rigs'' \<mapsto> [old_rig]]\<rparr>"

definition no_rooms_scene :: scene where
  "no_rooms_scene = \<lparr>objects = [chair, lamp], collections = Map.empty\<rparr>"

definition empty_rigs_scene :: scene where
  "empty_rigs_scene = \<lparr>objects = [chair, lamp], collections = [''camera_rigs'' \<mapsto> []]\<rparr>"

definition loaded :: "scene \<Rightarrow> world" where
  "loaded s = \<lparr>bpy_data = s, disk = Map.empty\<rparr>"

definition on_disk :: "scene \<Rightarrow> world" where
  "on_disk s = \<lparr>bpy_data = \<lparr>objects = [], collections = Map.empty\<rparr>,
                 disk = [''in/scene.blend'' \<mapsto> s]\<rparr>"

definition demo_args :: args where
  "demo_args = \<lparr>input_blend = path_of_string ''in/scene.blend'',
                 output_folder = path_of_string ''/data/out''\<rparr>"

subsection \<open>Shapes of runs\<close>

text \<open>
  A list of calls that all returned normally and all belong to the steps before the
  solver.
\<close>

definition quiet :: "'p event list \<Rightarrow> bool" where
  "quiet evs = (\<forall>ev\<in>set evs. is_prefix_call (fst ev) \<and> snd ev = None)"

definition is_compute_poses :: "'p call \<Rightarrow> bool" where
  "is_compute_poses c = (case c of ComputePoses _ _ _ _ \<Rightarrow> True | _ \<Rightarrow> False)"

text \<open>
  What a run of one of the steps before the solver looks like: the files on disk are
  untouched; on an exception the raising call is the last one, and every call before it
  returned normally.
\<close>

definition prefix_run :: "world \<Rightarrow> (error + 'a) \<times> world \<times> 'p event list \<Rightarrow> bool" where
  "prefix_run w t =
     (case t of (r, w', evs) \<Rightarrow>
        disk w' = disk w \<and>
        (case r of
           Inl e \<Rightarrow> (\<exists>pre c. evs = pre @ [(c, Some e)] \<and> quiet pre \<and> is_prefix_call c)
         | Inr _ \<Rightarrow> quiet evs))"

text \<open>
  What a run of the whole workflow looks like: either some call up to and including the
  solver raised, and the run ended there with that error and the files on disk
  untouched; or every call returned normally, the solver call was followed by the
  deletion of the floor surface and the save, and the saved file holds the final scene.
\<close>

definition run_shape :: "args \<Rightarrow> world \<Rightarrow> (error + unit) \<times> world \<times> 'p event list \<Rightarrow> bool" where
  "run_shape a w t =
     (case t of (r, w', evs) \<Rightarrow>
        (\<exists>e pre c. r = Inl e \<and> evs = pre @ [(c, Some e)] \<and> quiet pre \<and>
            (is_prefix_call c \<or> is_compute_poses c) \<and> disk w' = disk w) \<or>
        (\<exists>pre rigs tok sf nr. r = Inr () \<and>
            evs = pre @ [(ComputePoses rigs tok sf nr, None), (Delete sf, None),
                         (SaveAsMainfile (str (output_path a)), None)] \<and>
            quiet pre \<and> sf \<notin> set (objects (bpy_data w')) \<and>
            disk w' = (disk w)(str (output_path a) \<mapsto> bpy_data w')))"

text \<open>The invariant of a parsed path: no component is empty, a dot, or holds a slash.\<close>

definition valid_path :: "path \<Rightarrow> bool" where
  "valid_path p = (\<forall>x\<in>set (parts p). x \<noteq> [] \<and> x \<noteq> ''.'' \<and> CHR ''/'' \<notin> set x)"

text \<open>The demo host with a join that raises.\<close>

definition failing_join_host :: "nat host" where
  "failing_join_host =
     demo_host\<lparr>join_objects := (\<lambda>obs s. (Inl (Failure ''join''), s))\<rparr>"

text \<open>
  What a run that returned normally ends with: the solver was called on some scene and
  returned a scene, the floor surface was deleted from that scene, and the result was
  saved under the output path.
\<close>

definition saved_run ::
  "'p host \<Rightarrow> args \<Rightarrow> (error + unit) \<times> world \<times> 'p event list \<Rightarrow> bool" where
  "saved_run h a t =
     (case t of (r, w', evs) \<Rightarrow>
        r = Inr () \<longrightarrow>
        (\<exists>pre rigs tok sf nr s s'.
            evs = pre @ [(ComputePoses rigs tok sf nr, None), (Delete sf, None),
                         (SaveAsMainfile (str (output_path a)), None)] \<and>
            compute_poses h rigs tok sf nr s = (Inr (), s') \<and>
            bpy_data w' = delete_objs [sf] s' \<and>
            disk w' (str (output_path a)) = Some (delete_objs [sf] s')))"

section \<open>Facts about sequencing\<close>

lemma bind_prog_Inl: "m w = (Inl e, w1, evs1) \<Longrightarrow> bind_prog m f w = (Inl e, w1, evs1)"
  by (simp add: bind_prog_def)

lemma bind_prog_Inr:
  "m w = (Inr x, w1, evs1) \<Longrightarrow> f x w1 = (r, w2, evs2) \<Longrightarrow>
   bind_prog m f w = (r, w2, evs1 @ evs2)"
  by (simp add: bind_prog_def)

lemma bind_prog_cases:
  obtains (fail) e w1 evs1 where "m w = (Inl e, w1, evs1)" "bind_prog m f w = (Inl e, w1, evs1)"
  | (ok) x w1 evs1 r w2 evs2 where "m w = (Inr x, w1, evs1)" "f x w1 = (r, w2, evs2)"
      "bind_prog m f w = (r, w2, evs1 @ evs2)"
proof -
  obtain r1 w1 evs1 where m: "m w = (r1, w1, evs1)"
    by (cases "m w") auto
  show thesis
  proof (cases r1)
    case (Inl e)
    with m have "bind_prog m f w = (Inl e, w1, evs1)"
      by (simp add: bind_prog_Inl)
    with m Inl show thesis by (auto intro: fail)
  next
    case (Inr x)
    obtain r w2 evs2 where f: "f x w1 = (r, w2, evs2)"
      by (cases "f x w1") auto
    with m Inr have "bind_prog m f w = (r, w2, evs1 @ evs2)"
      by (simp add: bind_prog_Inr)
    with m Inr f show thesis by (auto intro: ok)
  qed
qed

lemma bind_prog_InrD:
  assumes "bind_prog m f w = (Inr y, w2, evs)"
  obtains x w1 evs1 evs2 where "m w = (Inr x, w1, evs1)" "f x w1 = (Inr y, w2, evs2)"
    "evs = evs1 @ evs2"
  using assms by (cases rule: bind_prog_cases [of m w f]) auto

section \<open>The tag filter\<close>

lemma tag_test_query:
  assumes "get_tags h ob (bpy_data w) = (Inr ts, bpy_data w)"
  shows "bind_prog (get_tags_call h ob) (\<lambda>ts. return_prog (P ts)) w
          = (Inr (P ts), w, [(GetTags ob, None)])"
  using assms
  by (simp add: bind_prog_def get_tags_call_def call_scene_def return_prog_def outcome_def)

lemma tag_filter_query:
  assumes "\<forall>ob\<in>set xs. get_tags h ob (bpy_data w) = (Inr (tg ob), bpy_data w)"
  shows "filter_prog (\<lambda>ob. bind_prog (get_tags_call h ob) (\<lambda>ts. return_prog (P ts))) xs w
          = (Inr (filter (\<lambda>ob. P (tg ob)) xs), w, map (\<lambda>ob. (GetTags ob, None)) xs)"
  using assms
proof (induction xs)
  case Nil
  show ?case by (simp add: return_prog_def)
next
  case (Cons x xs)
  let ?t = "\<lambda>ob. bind_prog (get_tags_call h ob) (\<lambda>ts. return_prog (P ts))"
  have head: "?t x w = (Inr (P (tg x)), w, [(GetTags x, None)])"
    using Cons.prems by (simp add: tag_test_query)
  have tail: "filter_prog ?t xs w
      = (Inr (filter (\<lambda>ob. P (tg ob)) xs), w, map (\<lambda>ob. (GetTags ob, None)) xs)"
    using Cons by simp
  have "filter_prog ?t (x # xs) w =
      bind_prog (?t x) (\<lambda>b. bind_prog (filter_prog ?t xs)
        (\<lambda>ys. return_prog (if b then x # ys else ys))) w"
    by simp
  also have "\<dots> = (Inr (filter (\<lambda>ob. P (tg ob)) (x # xs)), w,
      map (\<lambda>ob. (GetTags ob, None)) (x # xs))"
    unfolding bind_prog_def [of "?t x"] bind_prog_def [of "filter_prog ?t xs"]
    by (simp add: head tail return_prog_def)
  finally show ?case .
qed

lemma reconstruct_scene_vars_query:
  assumes "\<forall>ob\<in>set (all_objs (bpy_data w)).
             get_tags h ob (bpy_data w) = (Inr (tg ob), bpy_data w)"
  shows "reconstruct_scene_vars h w =
          (Inr (filter (\<lambda>ob. Semantics_Room \<in> tg ob) (all_objs (bpy_data w)),
                filter (\<lambda>ob. Semantics_Room \<notin> tg ob) (all_objs (bpy_data w)),
                filter (\<lambda>ob. Semantics_Room \<in> tg ob) (all_objs (bpy_data w)) @
                filter (\<lambda>ob. Semantics_Room \<notin> tg ob) (all_objs (bpy_data w))),
           w,
           map (\<lambda>ob. (GetTags ob, None)) (all_objs (bpy_data w)) @
           map (\<lambda>ob. (GetTags ob, None)) (all_objs (bpy_data w)))"
  unfolding reconstruct_scene_vars_def
  by (simp add: bind_prog_def return_prog_def tag_filter_query [OF assms])

lemma classify_single_pass_query:
  assumes "\<forall>ob\<in>set xs. get_tags h ob (bpy_data w) = (Inr (tg ob), bpy_data w)"
  shows "classify_single_pass h xs w
          = (Inr (filter (\<lambda>ob. Semantics_Room \<in> tg ob) xs,
                  filter (\<lambda>ob. Semantics_Room \<notin> tg ob) xs),
             w, map (\<lambda>ob. (GetTags ob, None)) xs)"
  using assms
proof (induction xs)
  case Nil
  show ?case by (simp add: return_prog_def)
next
  case (Cons x xs)
  have head: "get_tags_call h x w = (Inr (tg x), w, [(GetTags x, None)])"
    using Cons.prems by (simp add: get_tags_call_def call_scene_def outcome_def)
  have tail: "classify_single_pass h xs w
          = (Inr (filter (\<lambda>ob. Semantics_Room \<in> tg ob) xs,
                  filter (\<lambda>ob. Semantics_Room \<notin> tg ob) xs),
             w, map (\<lambda>ob. (GetTags ob, None)) xs)"
    using Cons by simp
  show ?case
    by (simp add: bind_prog_def head tail return_prog_def)
qed

lemma reconstruct_scene_vars_single_pass_query:
  assumes "\<forall>ob\<in>set (all_objs (bpy_data w)).
             get_tags h ob (bpy_data w) = (Inr (tg ob), bpy_data w)"
  shows "reconstruct_scene_vars_single_pass h w =
          (Inr (filter (\<lambda>ob. Semantics_Room \<in> tg ob) (all_objs (bpy_data w)),
                filter (\<lambda>ob. Semantics_Room \<notin> tg ob) (all_objs (bpy_data w)),
                filter (\<lambda>ob. Semantics_Room \<in> tg ob) (all_objs (bpy_data w)) @
                filter (\<lambda>ob. Semantics_Room \<notin> tg ob) (all_objs (bpy_data w))),
           w, map (\<lambda>ob. (GetTags ob, None)) (all_objs (bpy_data w)))"
  unfolding reconstruct_scene_vars_single_pass_def
  by (simp add: bind_prog_def return_prog_def classify_single_pass_query [OF assms])

lemma tag_lookups_append: "tag_lookups (xs @ ys) ob = tag_lookups xs ob + tag_lookups ys ob"
  by (simp add: tag_lookups_def)

lemma tag_lookups_map: "tag_lookups (map (\<lambda>ob. (GetTags ob, None)) xs) ob = count_list xs ob"
  by (induction xs) (auto simp: tag_lookups_def)

lemma tag_filter_readonly:
  assumes "\<forall>ob\<in>set xs. snd (get_tags h ob (bpy_data w)) = bpy_data w"
  shows "final (filter_prog (\<lambda>ob. bind_prog (get_tags_call h ob) (\<lambda>ts. return_prog (P ts))) xs) w = w"
  using assms
proof (induction xs)
  case Nil
  show ?case by (simp add: return_prog_def final_def)
next
  case (Cons x xs)
  let ?t = "\<lambda>ob. bind_prog (get_tags_call h ob) (\<lambda>ts. return_prog (P ts))"
  obtain r where g: "get_tags h x (bpy_data w) = (r, bpy_data w)"
    using Cons.prems by (cases "get_tags h x (bpy_data w)") auto
  have tail: "fst (snd (filter_prog ?t xs w)) = w"
    using Cons by (simp add: final_def)
  obtain r2 evs2 where t: "filter_prog ?t xs w = (r2, w, evs2)"
    using tail by (cases "filter_prog ?t xs w") auto
  show ?case
  proof (cases r)
    case (Inl e)
    with g show ?thesis
      by (simp add: final_def bind_prog_def get_tags_call_def call_scene_def)
  next
    case (Inr ts)
    with g have head: "?t x w = (Inr (P ts), w, [(GetTags x, None)])"
      by (simp add: tag_test_query)
    show ?thesis
      unfolding final_def filter_prog.simps
        bind_prog_def [of "?t x"] bind_prog_def [of "filter_prog ?t xs"]
      by (cases r2) (simp_all add: head t return_prog_def)
  qed
qed

lemma bind_prog_Inr_iff:
  "bind_prog m f w = (Inr y, w2, evs) \<longleftrightarrow>
     (\<exists>x w1 evs1 evs2. m w = (Inr x, w1, evs1) \<and> f x w1 = (Inr y, w2, evs2) \<and>
        evs = evs1 @ evs2)"
  by (auto simp: bind_prog_def split: sum.splits prod.splits)

lemma filter_prog_subseq:
  "filter_prog p xs w = (Inr ys, w', evs) \<Longrightarrow> subseq ys xs"
proof (induction xs arbitrary: w ys w' evs)
  case Nil
  then show ?case by (simp add: return_prog_def)
next
  case (Cons x xs)
  from Cons.prems obtain b w1 zs w2 evs3 where
    zs: "filter_prog p xs w1 = (Inr zs, w2, evs3)" and
    ys: "ys = (if b then x # zs else zs)"
    by (auto simp: bind_prog_Inr_iff return_prog_def)
  from zs have "subseq zs xs" by (rule Cons.IH)
  with ys show ?case by (auto intro: list_emb_Cons)
qed

lemma return_prog_Inr_iff:
  "return_prog x w = (Inr y, w', evs) \<longleftrightarrow> y = x \<and> w' = w \<and> evs = []"
  by (auto simp: return_prog_def)

lemma tag_filter_events:
  "filter_prog (\<lambda>ob. bind_prog (get_tags_call h ob) (\<lambda>ts. return_prog (P ts))) xs w
     = (Inr ys, w', evs) \<Longrightarrow>
   evs = map (\<lambda>ob. (GetTags ob, None)) xs"
proof (induction xs arbitrary: w ys w' evs)
  case Nil
  then show ?case by (simp add: return_prog_def)
next
  case (Cons x xs)
  let ?t = "\<lambda>ob. bind_prog (get_tags_call h ob) (\<lambda>ts. return_prog (P ts))"
  from Cons.prems obtain b w1 evs1 zs w2 evs2 where
    head: "?t x w = (Inr b, w1, evs1)" and
    tail: "filter_prog ?t xs w1 = (Inr zs, w2, evs2)" and
    evs: "evs = evs1 @ evs2"
    by (auto simp: bind_prog_Inr_iff return_prog_Inr_iff)
  from head have "evs1 = [(GetTags x, None)]"
    by (auto simp: bind_prog_Inr_iff return_prog_Inr_iff get_tags_call_def call_scene_def
          outcome_def split: prod.splits)
  moreover from tail have "evs2 = map (\<lambda>ob. (GetTags ob, None)) xs"
    by (rule Cons.IH)
  ultimately show ?case using evs by simp
qed

lemma reconstruct_scene_vars_events:
  assumes "result (reconstruct_scene_vars h) w = Inr v"
  shows "events (reconstruct_scene_vars h) w
           = map (\<lambda>ob. (GetTags ob, None)) (all_objs (bpy_data w)) @
             map (\<lambda>ob. (GetTags ob, None)) (all_objs (bpy_data w))"
proof -
  obtain w' evs where run: "reconstruct_scene_vars h w = (Inr v, w', evs)"
    using assms by (cases "reconstruct_scene_vars h w") (auto simp: result_def)
  let ?room = "\<lambda>ob. bind_prog (get_tags_call h ob) (\<lambda>ts. return_prog (Semantics_Room \<in> ts))"
  let ?other = "\<lambda>ob. bind_prog (get_tags_call h ob) (\<lambda>ts. return_prog (Semantics_Room \<notin> ts))"
  from run obtain rs w1 evs1 ns w2 evs2 where
    r: "filter_prog ?room (all_objs (bpy_data w)) w = (Inr rs, w1, evs1)" and
    n: "filter_prog ?other (all_objs (bpy_data w)) w1 = (Inr ns, w2, evs2)" and
    e: "evs = evs1 @ evs2"
    unfolding reconstruct_scene_vars_def
    by (auto simp: bind_prog_Inr_iff return_prog_Inr_iff)
  from tag_filter_events [OF r] tag_filter_events [OF n] e run show ?thesis
    by (simp add: events_def)
qed

section \<open>The Rig Cleaner\<close>

text \<open>
  C4. When the scene has no collection named \<open>camera_rigs\<close>, or has one without
  members, \<open>delete_existing_camera_rigs\<close> returns normally, leaves the world as it
  was, and issues no external call.
\<close>

theorem rig_cleaner_noop:
  assumes "collections (bpy_data w) ''camera_rigs'' = None \<or>
           collections (bpy_data w) ''camera_rigs'' = Some []"
  shows "delete_existing_camera_rigs w = (Inr (), w, [])"
  using assms by (auto simp: delete_existing_camera_rigs_def return_prog_def)

theorem rig_cleaner_noop_witness:
  "collections (bpy_data (loaded no_rooms_scene)) ''camera_rigs'' = None \<and>
   (delete_existing_camera_rigs :: (nat, unit) prog) (loaded no_rooms_scene)
     = (Inr (), loaded no_rooms_scene, []) \<and>
   collections (bpy_data (loaded empty_rigs_scene)) ''camera_rigs'' = Some [] \<and>
   (delete_existing_camera_rigs :: (nat, unit) prog) (loaded empty_rigs_scene)
     = (Inr (), loaded empty_rigs_scene, [])"
proof -
  have a: "collections (bpy_data (loaded no_rooms_scene)) ''camera_rigs'' = None"
    by (simp add: loaded_def no_rooms_scene_def)
  have b: "collections (bpy_data (loaded empty_rigs_scene)) ''camera_rigs'' = Some []"
    by (simp add: loaded_def empty_rigs_scene_def)
  from a b show ?thesis
    using rig_cleaner_noop [of "loaded no_rooms_scene"]
      rig_cleaner_noop [of "loaded empty_rigs_scene"]
    by simp
qed

text \<open>
  C5. When the collection \<open>camera_rigs\<close> has the members \<open>members\<close>, the Rig Cleaner
  returns normally and the scene's objects afterwards are the objects before without
  the members, in their order: exactly the members are gone and no other object. The
  only external call is one batch deletion of exactly the members (none when there are
  no members). For a well-formed scene (no object listed twice, every member an object of the scene)
  the number of objects drops by the number of members.
\<close>

theorem rig_cleaner_deletes_members:
  assumes "collections (bpy_data w) ''camera_rigs'' = Some members"
  shows "result (delete_existing_camera_rigs :: ('p, unit) prog) w = Inr () \<and>
         objects (bpy_data (final (delete_existing_camera_rigs :: ('p, unit) prog) w))
           = filter (\<lambda>ob. ob \<notin> set members) (objects (bpy_data w)) \<and>
         set (objects (bpy_data (final (delete_existing_camera_rigs :: ('p, unit) prog) w)))
           = set (objects (bpy_data w)) - set members \<and>
         disk (final (delete_existing_camera_rigs :: ('p, unit) prog) w) = disk w \<and>
         events (delete_existing_camera_rigs :: ('p, unit) prog) w
           = (if members = [] then [] else [(ObjectDelete members, None)]) \<and>
         (distinct (objects (bpy_data w)) \<and> distinct members \<and>
          set members \<subseteq> set (objects (bpy_data w)) \<longrightarrow>
            length (objects (bpy_data (final (delete_existing_camera_rigs :: ('p, unit) prog) w)))
              + length members = length (objects (bpy_data w)))"
proof -
  let ?objs = "objects (bpy_data w)"
  have run: "objects (bpy_data (final (delete_existing_camera_rigs :: ('p, unit) prog) w))
           = filter (\<lambda>ob. ob \<notin> set members) ?objs"
    and res: "result (delete_existing_camera_rigs :: ('p, unit) prog) w = Inr ()"
    and dsk: "disk (final (delete_existing_camera_rigs :: ('p, unit) prog) w) = disk w"
    and evs: "events (delete_existing_camera_rigs :: ('p, unit) prog) w
           = (if members = [] then [] else [(ObjectDelete members, None)])"
    using assms
    by (auto simp: delete_existing_camera_rigs_def return_prog_def select_objects_delete_def
        call_scene_def delete_objs_def final_def result_def events_def outcome_def)
  have len: "length (filter (\<lambda>ob. ob \<notin> set members) ?objs) + length members = length ?objs"
    if d: "distinct ?objs" "distinct members" and sub: "set members \<subseteq> set ?objs"
  proof -
    have "length (filter (\<lambda>ob. ob \<notin> set members) ?objs) = card (set ?objs - set members)"
      using d(1) by (simp add: distinct_card [symmetric] set_diff_eq [symmetric] Diff_eq Int_def conj_commute)
    also have "\<dots> = card (set ?objs) - card (set members)"
      using sub by (simp add: card_Diff_subset)
    finally have "length (filter (\<lambda>ob. ob \<notin> set members) ?objs)
        = length ?objs - length members"
      using d by (simp add: distinct_card)
    moreover have "length members \<le> length ?objs"
      using d sub by (metis card_mono distinct_card List.finite_set)
    ultimately show ?thesis by simp
  qed
  from run res dsk evs len show ?thesis by auto
qed

theorem rig_cleaner_deletes_members_witness:
  "collections (bpy_data (loaded demo_scene)) ''camera_rigs'' = Some [old_rig] \<and>
   result (delete_existing_camera_rigs :: (nat, unit) prog) (loaded demo_scene) = Inr () \<and>
   objects (bpy_data (final (delete_existing_camera_rigs :: (nat, unit) prog) (loaded demo_scene)))
     = [wall, chair, lamp] \<and>
   events (delete_existing_camera_rigs :: (nat, unit) prog) (loaded demo_scene)
     = [(ObjectDelete [old_rig], None)] \<and>
   length (objects (bpy_data (final (delete_existing_camera_rigs :: (nat, unit) prog)
     (loaded demo_scene)))) + length [old_rig] = length (objects (bpy_data (loaded demo_scene)))"
proof -
  have a: "collections (bpy_data (loaded demo_scene)) ''camera_rigs'' = Some [old_rig]"
    by (simp add: loaded_def demo_scene_def)
  have o: "objects (bpy_data (loaded demo_scene)) = [wall, chair, lamp, old_rig]"
    by (simp add: loaded_def demo_scene_def)
  have ne: "wall \<noteq> old_rig" "chair \<noteq> old_rig" "lamp \<noteq> old_rig"
    "wall \<noteq> chair" "wall \<noteq> lamp" "chair \<noteq> lamp"
    by (simp_all add: wall_def chair_def lamp_def old_rig_def)
  show ?thesis
    using a rig_cleaner_deletes_members [OF a, where 'p = nat] ne
    by (simp add: o)
qed

section \<open>The Scene Classifier\<close>

lemma demo_tags:
  "get_tags demo_host ob s = (Inr (if name ob = ''room_0'' then {Semantics_Room} else {}), s)"
  by (simp add: demo_host_def)

lemma demo_all_objs: "all_objs (bpy_data (loaded demo_scene)) = [wall, chair]"
  by (simp add: all_objs_def loaded_def demo_scene_def wall_def chair_def lamp_def old_rig_def)

text \<open>
  C2. When the tag lookup is a query (on every mesh object of the scene it returns a tag
  set \<open>tg ob\<close> and leaves the scene as it is), \<open>reconstruct_scene_vars\<close> returns, and its
  first two lists partition the mesh objects: a mesh object is in the first list exactly
  when its tags hold \<open>Semantics_Room\<close> and in the second exactly when they do not, the
  two lists are disjoint, together they hold every mesh object, and each as often as the
  scene lists it.
\<close>

theorem classifier_partition:
  assumes "\<forall>ob\<in>set (all_objs (bpy_data w)).
             get_tags h ob (bpy_data w) = (Inr (tg ob), bpy_data w)"
  shows "\<exists>room_objs nonroom_objs scene_objs.
           result (reconstruct_scene_vars h) w = Inr (room_objs, nonroom_objs, scene_objs) \<and>
           room_objs = filter (\<lambda>ob. Semantics_Room \<in> tg ob) (all_objs (bpy_data w)) \<and>
           nonroom_objs = filter (\<lambda>ob. Semantics_Room \<notin> tg ob) (all_objs (bpy_data w)) \<and>
           (\<forall>ob. ob \<in> set room_objs \<longleftrightarrow>
                 ob \<in> set (all_objs (bpy_data w)) \<and> Semantics_Room \<in> tg ob) \<and>
           (\<forall>ob. ob \<in> set nonroom_objs \<longleftrightarrow>
                 ob \<in> set (all_objs (bpy_data w)) \<and> Semantics_Room \<notin> tg ob) \<and>
           set room_objs \<inter> set nonroom_objs = {} \<and>
           set room_objs \<union> set nonroom_objs = set (all_objs (bpy_data w)) \<and>
           mset room_objs + mset nonroom_objs = mset (all_objs (bpy_data w))"
proof -
  let ?mesh = "all_objs (bpy_data w)"
  let ?rooms = "filter (\<lambda>ob. Semantics_Room \<in> tg ob) ?mesh"
  let ?others = "filter (\<lambda>ob. Semantics_Room \<notin> tg ob) ?mesh"
  have 1: "result (reconstruct_scene_vars h) w = Inr (?rooms, ?others, ?rooms @ ?others)"
    by (simp add: result_def reconstruct_scene_vars_query [OF assms])
  have 2: "\<forall>ob. ob \<in> set ?rooms \<longleftrightarrow> ob \<in> set ?mesh \<and> Semantics_Room \<in> tg ob"
    by simp
  have 3: "\<forall>ob. ob \<in> set ?others \<longleftrightarrow> ob \<in> set ?mesh \<and> Semantics_Room \<notin> tg ob"
    by simp
  have 4: "set ?rooms \<inter> set ?others = {}" by auto
  have 5: "set ?rooms \<union> set ?others = set ?mesh" by auto
  have 6: "mset ?rooms + mset ?others = mset ?mesh" by simp
  show ?thesis
    apply (rule exI [of _ ?rooms])
    apply (rule exI [of _ ?others])
    apply (rule exI [of _ "?rooms @ ?others"])
    using 1 2 3 4 5 6 by blast
qed

theorem classifier_partition_witness:
  "get_tags demo_host wall (bpy_data (loaded demo_scene))
     = (Inr {Semantics_Room}, bpy_data (loaded demo_scene)) \<and>
   get_tags demo_host chair (bpy_data (loaded demo_scene))
     = (Inr {}, bpy_data (loaded demo_scene)) \<and>
   result (reconstruct_scene_vars demo_host) (loaded demo_scene)
     = Inr ([wall], [chair], [wall, chair])"
proof -
  let ?tg = "\<lambda>ob. if name ob = ''room_0'' then {Semantics_Room} else {}"
  have q: "\<forall>ob\<in>set (all_objs (bpy_data (loaded demo_scene))).
      get_tags demo_host ob (bpy_data (loaded demo_scene))
        = (Inr (?tg ob), bpy_data (loaded demo_scene))"
    by (simp add: demo_tags)
  have n: "name wall = ''room_0''" "name chair \<noteq> ''room_0''"
    by (simp_all add: wall_def chair_def)
  from classifier_partition [OF q] obtain room_objs nonroom_objs scene_objs where
    r: "result (reconstruct_scene_vars demo_host) (loaded demo_scene)
          = Inr (room_objs, nonroom_objs, scene_objs)" and
    a: "room_objs = filter (\<lambda>ob. Semantics_Room \<in> ?tg ob)
          (all_objs (bpy_data (loaded demo_scene)))" and
    b: "nonroom_objs = filter (\<lambda>ob. Semantics_Room \<notin> ?tg ob)
          (all_objs (bpy_data (loaded demo_scene)))"
    by blast
  have r0: "result (reconstruct_scene_vars demo_host) (loaded demo_scene)
          = Inr ([wall], [chair], [wall, chair])"
    by code_simp
  have "Inr (room_objs, nonroom_objs, scene_objs)
          = (Inr ([wall], [chair], [wall, chair]) :: error + _)"
    by (rule trans [OF sym [OF r] r0])
  then have c: "scene_objs = [wall, chair]"
    by simp
  from a b n have "room_objs = [wall]" "nonroom_objs = [chair]"
    by (simp_all add: demo_all_objs)
  with r c show ?thesis
    by (simp add: demo_tags n)
qed

text \<open>
  C6. Whenever \<open>reconstruct_scene_vars\<close> returns, its third list is the first followed
  by the second: every room object stands before every other object, and both lists
  keep the order in which the scene enumerates its objects.
\<close>

theorem classifier_combined_order:
  assumes "result (reconstruct_scene_vars h) w = Inr (room_objs, nonroom_objs, scene_objs)"
  shows "scene_objs = room_objs @ nonroom_objs \<and>
         subseq room_objs (objects (bpy_data w)) \<and>
         subseq nonroom_objs (objects (bpy_data w)) \<and>
         take (length room_objs) scene_objs = room_objs \<and>
         drop (length room_objs) scene_objs = nonroom_objs"
proof -
  obtain w' evs where
    run: "reconstruct_scene_vars h w = (Inr (room_objs, nonroom_objs, scene_objs), w', evs)"
    using assms by (cases "reconstruct_scene_vars h w") (auto simp: result_def)
  let ?room = "\<lambda>ob. bind_prog (get_tags_call h ob) (\<lambda>ts. return_prog (Semantics_Room \<in> ts))"
  let ?other = "\<lambda>ob. bind_prog (get_tags_call h ob) (\<lambda>ts. return_prog (Semantics_Room \<notin> ts))"
  from run obtain w1 evs1 w2 evs2 where
    r: "filter_prog ?room (all_objs (bpy_data w)) w = (Inr room_objs, w1, evs1)" and
    n: "filter_prog ?other (all_objs (bpy_data w)) w1 = (Inr nonroom_objs, w2, evs2)" and
    c: "scene_objs = room_objs @ nonroom_objs"
    unfolding reconstruct_scene_vars_def
    by (auto simp: bind_prog_Inr_iff return_prog_def)
  have mesh: "subseq (all_objs (bpy_data w)) (objects (bpy_data w))"
    by (simp add: all_objs_def)
  from r have "subseq room_objs (all_objs (bpy_data w))" by (rule filter_prog_subseq)
  with mesh have 1: "subseq room_objs (objects (bpy_data w))" by (rule subseq_order.trans [rotated])
  from n have "subseq nonroom_objs (all_objs (bpy_data w))" by (rule filter_prog_subseq)
  with mesh have 2: "subseq nonroom_objs (objects (bpy_data w))" by (rule subseq_order.trans [rotated])
  from c 1 2 show ?thesis by simp
qed

theorem classifier_combined_order_witness:
  "result (reconstruct_scene_vars demo_host) (loaded demo_scene)
     = Inr ([wall], [chair], [wall, chair]) \<and>
   [wall, chair] = [wall] @ [chair] \<and>
   subseq [wall] (objects (bpy_data (loaded demo_scene))) \<and>
   subseq [chair] (objects (bpy_data (loaded demo_scene)))"
proof -
  have r: "result (reconstruct_scene_vars demo_host) (loaded demo_scene)
     = Inr ([wall], [chair], [wall, chair])"
    by code_simp
  from classifier_combined_order [OF r] r show ?thesis by simp
qed

text \<open>
  C10. When the tag lookup leaves the scene as it is (whether it returns or raises),
  \<open>reconstruct_scene_vars\<close> leaves the whole world as it is: the scene with its objects
  and collections, and the files on disk.
\<close>

theorem classifier_read_only:
  assumes "\<forall>ob\<in>set (all_objs (bpy_data w)). snd (get_tags h ob (bpy_data w)) = bpy_data w"
  shows "final (reconstruct_scene_vars h) w = w"
proof -
  let ?room = "\<lambda>ob. bind_prog (get_tags_call h ob) (\<lambda>ts. return_prog (Semantics_Room \<in> ts))"
  let ?other = "\<lambda>ob. bind_prog (get_tags_call h ob) (\<lambda>ts. return_prog (Semantics_Room \<notin> ts))"
  have 1: "fst (snd (filter_prog ?room (all_objs (bpy_data w)) w)) = w"
    using tag_filter_readonly [OF assms, of "\<lambda>ts. Semantics_Room \<in> ts"] by (simp add: final_def)
  have 2: "fst (snd (filter_prog ?other (all_objs (bpy_data w)) w)) = w"
    using tag_filter_readonly [OF assms, of "\<lambda>ts. Semantics_Room \<notin> ts"] by (simp add: final_def)
  obtain r1 evs1 where a: "filter_prog ?room (all_objs (bpy_data w)) w = (r1, w, evs1)"
    using 1 by (cases "filter_prog ?room (all_objs (bpy_data w)) w") auto
  obtain r2 evs2 where b: "filter_prog ?other (all_objs (bpy_data w)) w = (r2, w, evs2)"
    using 2 by (cases "filter_prog ?other (all_objs (bpy_data w)) w") auto
  show ?thesis
    unfolding reconstruct_scene_vars_def final_def
    by (cases r1; cases r2) (simp_all add: bind_prog_def return_prog_def a b)
qed

theorem classifier_read_only_witness:
  "snd (get_tags demo_host wall (bpy_data (loaded demo_scene))) = bpy_data (loaded demo_scene) \<and>
   snd (get_tags demo_host chair (bpy_data (loaded demo_scene))) = bpy_data (loaded demo_scene) \<and>
   final (reconstruct_scene_vars demo_host) (loaded demo_scene) = loaded demo_scene"
proof -
  have q: "\<forall>ob\<in>set (all_objs (bpy_data (loaded demo_scene))).
      snd (get_tags demo_host ob (bpy_data (loaded demo_scene))) = bpy_data (loaded demo_scene)"
    by (simp add: demo_tags)
  from classifier_read_only [OF q] show ?thesis
    by (simp add: demo_tags)
qed

text \<open>
  C3, as the claim states it, fails: with two mesh objects in the scene the classifier
  looks the tags of the first up twice, where the single-pass reference looks them up
  once.
\<close>

theorem classifier_lookups_counterexample:
  "tag_lookups (events (reconstruct_scene_vars demo_host) (loaded demo_scene)) wall = 2 \<and>
   tag_lookups (events (reconstruct_scene_vars_single_pass demo_host) (loaded demo_scene)) wall = 1"
  by code_simp

text \<open>
  C3, amended. Whenever the classifier returns normally, it has looked the tags of every
  mesh object up exactly twice (once for the room list, once for the other list). When
  moreover the tag lookup is a query (on every mesh object of the scene it returns a tag
  set and leaves the scene as it is), the classifier returns normally, the single-pass
  reference looks the tags of every mesh object up exactly once, and both return the
  same three lists and leave the same world.
\<close>

theorem classifier_two_lookups:
  "(\<forall>v. result (reconstruct_scene_vars h) w = Inr v \<longrightarrow>
      tag_lookups (events (reconstruct_scene_vars h) w) ob
        = 2 * count_list (all_objs (bpy_data w)) ob) \<and>
   ((\<forall>x\<in>set (all_objs (bpy_data w)).
        get_tags h x (bpy_data w) = (Inr (tg x), bpy_data w)) \<longrightarrow>
      (\<exists>v. result (reconstruct_scene_vars h) w = Inr v) \<and>
      tag_lookups (events (reconstruct_scene_vars h) w) ob
        = 2 * count_list (all_objs (bpy_data w)) ob \<and>
      tag_lookups (events (reconstruct_scene_vars_single_pass h) w) ob
        = count_list (all_objs (bpy_data w)) ob \<and>
      result (reconstruct_scene_vars h) w = result (reconstruct_scene_vars_single_pass h) w \<and>
      final (reconstruct_scene_vars h) w = final (reconstruct_scene_vars_single_pass h) w)"
proof (intro conjI allI impI)
  fix v
  assume "result (reconstruct_scene_vars h) w = Inr v"
  then show "tag_lookups (events (reconstruct_scene_vars h) w) ob
        = 2 * count_list (all_objs (bpy_data w)) ob"
    by (simp add: reconstruct_scene_vars_events tag_lookups_append tag_lookups_map)
next
  assume q: "\<forall>x\<in>set (all_objs (bpy_data w)).
        get_tags h x (bpy_data w) = (Inr (tg x), bpy_data w)"
  show "\<exists>v. result (reconstruct_scene_vars h) w = Inr v"
    by (simp add: result_def reconstruct_scene_vars_query [OF q])
  show "tag_lookups (events (reconstruct_scene_vars h) w) ob
        = 2 * count_list (all_objs (bpy_data w)) ob"
    by (simp add: events_def reconstruct_scene_vars_query [OF q] tag_lookups_append
        tag_lookups_map)
  show "tag_lookups (events (reconstruct_scene_vars_single_pass h) w) ob
        = count_list (all_objs (bpy_data w)) ob"
    by (simp add: events_def reconstruct_scene_vars_single_pass_query [OF q] tag_lookups_map)
  show "result (reconstruct_scene_vars h) w = result (reconstruct_scene_vars_single_pass h) w"
    by (simp add: result_def reconstruct_scene_vars_query [OF q]
        reconstruct_scene_vars_single_pass_query [OF q])
  show "final (reconstruct_scene_vars h) w = final (reconstruct_scene_vars_single_pass h) w"
    by (simp add: final_def reconstruct_scene_vars_query [OF q]
        reconstruct_scene_vars_single_pass_query [OF q])
qed

theorem classifier_two_lookups_witness:
  "result (reconstruct_scene_vars demo_host) (loaded demo_scene)
     = Inr ([wall], [chair], [wall, chair]) \<and>
   get_tags demo_host wall (bpy_data (loaded demo_scene))
     = (Inr {Semantics_Room}, bpy_data (loaded demo_scene)) \<and>
   get_tags demo_host chair (bpy_data (loaded demo_scene))
     = (Inr {}, bpy_data (loaded demo_scene)) \<and>
   tag_lookups (events (reconstruct_scene_vars demo_host) (loaded demo_scene)) chair = 2 \<and>
   tag_lookups (events (reconstruct_scene_vars_single_pass demo_host) (loaded demo_scene)) chair = 1 \<and>
   result (reconstruct_scene_vars demo_host) (loaded demo_scene)
     = result (reconstruct_scene_vars_single_pass demo_host) (loaded demo_scene)"
proof -
  let ?tg = "\<lambda>ob. if name ob = ''room_0'' then {Semantics_Room} else {}"
  have r: "result (reconstruct_scene_vars demo_host) (loaded demo_scene)
     = Inr ([wall], [chair], [wall, chair])"
    by code_simp
  have q: "\<forall>ob\<in>set (all_objs (bpy_data (loaded demo_scene))).
      get_tags demo_host ob (bpy_data (loaded demo_scene))
        = (Inr (?tg ob), bpy_data (loaded demo_scene))"
    by (simp add: demo_tags)
  have n: "name wall = ''room_0''" "name chair \<noteq> ''room_0''" "wall \<noteq> chair"
    by (simp_all add: wall_def chair_def)
  note inst = classifier_two_lookups [of demo_host "loaded demo_scene" chair ?tg]
  from inst r have a: "tag_lookups (events (reconstruct_scene_vars demo_host) (loaded demo_scene))
      chair = 2 * count_list (all_objs (bpy_data (loaded demo_scene))) chair"
    by blast
  from inst q have b:
    "tag_lookups (events (reconstruct_scene_vars_single_pass demo_host) (loaded demo_scene)) chair
       = count_list (all_objs (bpy_data (loaded demo_scene))) chair"
    "result (reconstruct_scene_vars demo_host) (loaded demo_scene)
       = result (reconstruct_scene_vars_single_pass demo_host) (loaded demo_scene)"
    by blast+
  from a b r n show ?thesis
    by (simp add: demo_all_objs demo_tags)
qed

section \<open>The steps before the solver\<close>

lemma quiet_Nil: "quiet []"
  by (simp add: quiet_def)

lemma quiet_append: "quiet (xs @ ys) \<longleftrightarrow> quiet xs \<and> quiet ys"
  by (auto simp: quiet_def)

lemma quiet_single: "quiet [(c, oc)] \<longleftrightarrow> is_prefix_call c \<and> oc = None"
  by (simp add: quiet_def)

lemma prefix_run_return: "prefix_run w (return_prog x w)"
  by (simp add: prefix_run_def return_prog_def quiet_Nil)

lemma prefix_run_call_scene:
  "is_prefix_call c \<Longrightarrow> prefix_run w (call_scene c f w)"
  by (cases "f (bpy_data w)")
     (auto simp: prefix_run_def call_scene_def outcome_def quiet_single quiet_Nil
           split: sum.splits)

lemma prefix_run_bind:
  assumes m: "prefix_run w (m w)" and f: "\<And>x w1. prefix_run w1 (f x w1)"
  shows "prefix_run w (bind_prog m f w)"
proof (cases rule: bind_prog_cases [of m w f])
  case (fail e w1 evs1)
  with m show ?thesis by (simp add: prefix_run_def)
next
  case (ok x w1 evs1 r w2 evs2)
  from m ok(1) have 1: "disk w1 = disk w" "quiet evs1"
    by (simp_all add: prefix_run_def)
  from f [of w1 x] ok(2) have 2: "disk w2 = disk w1"
    "case r of Inl e \<Rightarrow> (\<exists>pre c. evs2 = pre @ [(c, Some e)] \<and> quiet pre \<and> is_prefix_call c)
       | Inr _ \<Rightarrow> quiet evs2"
    by (simp_all add: prefix_run_def)
  show ?thesis
  proof (cases r)
    case (Inl e)
    with 2 obtain pre c where "evs2 = pre @ [(c, Some e)]" "quiet pre" "is_prefix_call c"
      by auto
    with 1 have "evs1 @ evs2 = (evs1 @ pre) @ [(c, Some e)] \<and> quiet (evs1 @ pre) \<and>
        is_prefix_call c"
      by (simp add: quiet_append)
    then have "\<exists>pre' c'. evs1 @ evs2 = pre' @ [(c', Some e)] \<and> quiet pre' \<and> is_prefix_call c'"
      by blast
    with 1 2 Inl ok(3) show ?thesis by (simp add: prefix_run_def)
  next
    case (Inr y)
    with 1 2 ok(3) show ?thesis by (simp add: prefix_run_def quiet_append)
  qed
qed

lemma prefix_run_filter_prog:
  assumes "\<And>x w1. prefix_run w1 (p x w1)"
  shows "prefix_run w (filter_prog p xs w)"
proof (induction xs arbitrary: w)
  case Nil
  show ?case by (simp add: prefix_run_return)
next
  case (Cons x xs)
  show ?case
    unfolding filter_prog.simps
    by (intro prefix_run_bind assms Cons.IH prefix_run_return)
qed

lemma prefix_run_map_prog:
  assumes "\<And>x w1. prefix_run w1 (f x w1)"
  shows "prefix_run w (map_prog f xs w)"
proof (induction xs arbitrary: w)
  case Nil
  show ?case by (simp add: prefix_run_return)
next
  case (Cons x xs)
  show ?case
    unfolding map_prog.simps
    by (intro prefix_run_bind assms Cons.IH prefix_run_return)
qed

lemma prefix_run_open_mainfile: "prefix_run w (open_mainfile filepath w)"
  by (auto simp: prefix_run_def open_mainfile_def quiet_single quiet_Nil is_prefix_call_def
           split: option.splits)

lemma prefix_run_delete_existing_camera_rigs: "prefix_run w (delete_existing_camera_rigs w)"
  unfolding delete_existing_camera_rigs_def select_objects_delete_def
  by (auto simp: prefix_run_return prefix_run_call_scene is_prefix_call_def Let_def
           split: option.splits)

lemma prefix_run_get_tags_call: "prefix_run w (get_tags_call h ob w)"
  unfolding get_tags_call_def by (simp add: prefix_run_call_scene is_prefix_call_def)

lemma prefix_run_reconstruct_scene_vars: "prefix_run w (reconstruct_scene_vars h w)"
  unfolding reconstruct_scene_vars_def
  by (intro prefix_run_bind prefix_run_filter_prog prefix_run_get_tags_call prefix_run_return)

section \<open>The shape of a run of the workflow\<close>

lemma run_shape_bind:
  assumes m: "prefix_run w (m w)" and f: "\<And>x w1. run_shape a w1 (f x w1)"
  shows "run_shape a w (bind_prog m f w)"
proof (cases rule: bind_prog_cases [of m w f])
  case (fail e w1 evs1)
  with m show ?thesis by (auto simp: prefix_run_def run_shape_def)
next
  case (ok x w1 evs1 r w2 evs2)
  from m ok(1) have 1: "disk w1 = disk w" "quiet evs1"
    by (simp_all add: prefix_run_def)
  from f [of w1 x] ok(2) have 2: "run_shape a w1 (r, w2, evs2)" by simp
  then consider
    (raised) e pre c where "r = Inl e" "evs2 = pre @ [(c, Some e)]" "quiet pre"
      "is_prefix_call c \<or> is_compute_poses c" "disk w2 = disk w1"
  | (saved) pre rigs tok sf nr where "r = Inr ()"
      "evs2 = pre @ [(ComputePoses rigs tok sf nr, None), (Delete sf, None),
                     (SaveAsMainfile (str (output_path a)), None)]"
      "quiet pre" "sf \<notin> set (objects (bpy_data w2))"
      "disk w2 = (disk w1)(str (output_path a) \<mapsto> bpy_data w2)"
    unfolding run_shape_def by fast
  then show ?thesis
  proof cases
    case raised
    with 1 have "evs1 @ evs2 = (evs1 @ pre) @ [(c, Some e)]" "quiet (evs1 @ pre)"
      by (simp_all add: quiet_append)
    with raised 1 have "\<exists>e pre c. r = Inl e \<and> evs1 @ evs2 = pre @ [(c, Some e)] \<and> quiet pre \<and>
            (is_prefix_call c \<or> is_compute_poses c) \<and> disk w2 = disk w"
      by metis
    with ok(3) show ?thesis by (simp add: run_shape_def)
  next
    case saved
    with 1 have "evs1 @ evs2 = (evs1 @ pre) @ [(ComputePoses rigs tok sf nr, None),
        (Delete sf, None), (SaveAsMainfile (str (output_path a)), None)]" "quiet (evs1 @ pre)"
      by (simp_all add: quiet_append)
    with saved 1 have "\<exists>pre rigs tok sf nr. r = Inr () \<and>
            evs1 @ evs2 = pre @ [(ComputePoses rigs tok sf nr, None), (Delete sf, None),
                         (SaveAsMainfile (str (output_path a)), None)] \<and>
            quiet pre \<and> sf \<notin> set (objects (bpy_data w2)) \<and>
            disk w2 = (disk w)(str (output_path a) \<mapsto> bpy_data w2)"
      by metis
    with ok(3) show ?thesis by (simp add: run_shape_def)
  qed
qed

lemma run_shape_solve:
  "run_shape a w
     (bind_prog (call_scene (ComputePoses rigs tok sf nr) (compute_poses h rigs tok sf nr)) (\<lambda>_.
      bind_prog (butil_delete sf) (\<lambda>_.
      save_as_mainfile (str (output_path a)))) w)"
proof -
  obtain r s where c: "compute_poses h rigs tok sf nr (bpy_data w) = (r, s)"
    by (cases "compute_poses h rigs tok sf nr (bpy_data w)") auto
  show ?thesis
  proof (cases r)
    case (Inl e)
    have "\<exists>pre c. [(ComputePoses rigs tok sf nr, Some e)] = pre @ [(c, Some e)] \<and> quiet pre \<and>
        (is_prefix_call c \<or> is_compute_poses c)"
      by (rule exI [of _ "[]"]) (simp add: quiet_Nil is_compute_poses_def)
    with c Inl show ?thesis
      by (simp add: run_shape_def bind_prog_def call_scene_def outcome_def)
  next
    case (Inr u)
    have "\<exists>pre. [(ComputePoses rigs tok sf nr, None), (Delete sf, None),
                 (SaveAsMainfile (str (output_path a)), None)]
              = pre @ [(ComputePoses rigs tok sf nr, None), (Delete sf, None),
                 (SaveAsMainfile (str (output_path a)), None)] \<and> quiet pre"
      by (rule exI [of _ "[]"]) (simp add: quiet_Nil)
    with c Inr show ?thesis
      by (simp add: run_shape_def bind_prog_def call_scene_def outcome_def butil_delete_def
          save_as_mainfile_def delete_objs_def)
  qed
qed

lemma re_pose_cameras_shape: "run_shape a w (re_pose_cameras h a w)"
  unfolding re_pose_cameras_def
  apply (rule run_shape_bind, rule prefix_run_open_mainfile)
  apply (rule run_shape_bind, rule prefix_run_delete_existing_camera_rigs)
  apply (rule run_shape_bind, rule prefix_run_reconstruct_scene_vars)
  apply (simp only: split_paired_all prod.case)
  apply (rule run_shape_bind, rule prefix_run_call_scene, simp add: is_prefix_call_def)
  apply (rule run_shape_bind, rule prefix_run_call_scene, simp add: is_prefix_call_def)
  apply (rule run_shape_bind, rule prefix_run_map_prog, rule prefix_run_call_scene,
         simp add: is_prefix_call_def)
  apply (rule run_shape_bind, rule prefix_run_call_scene, simp add: is_prefix_call_def)
  apply (rule run_shape_solve)
  done

section \<open>The workflow\<close>

lemma quiet_no_failure: "quiet pre \<Longrightarrow> (c, Some e) \<notin> set pre"
  by (auto simp: quiet_def)

lemma quiet_prefix_calls: "quiet pre \<Longrightarrow> ev \<in> set pre \<Longrightarrow> is_prefix_call (fst ev)"
  by (simp add: quiet_def)

lemma re_pose_cameras_cases:
  obtains (raised) e pre c where
      "result (re_pose_cameras h a) w = Inl e"
      "events (re_pose_cameras h a) w = pre @ [(c, Some e)]" "quiet pre"
      "is_prefix_call c \<or> is_compute_poses c"
      "disk (final (re_pose_cameras h a) w) = disk w"
  | (saved) pre rigs tok sf nr where
      "result (re_pose_cameras h a) w = Inr ()"
      "events (re_pose_cameras h a) w
         = pre @ [(ComputePoses rigs tok sf nr, None), (Delete sf, None),
                  (SaveAsMainfile (str (output_path a)), None)]"
      "quiet pre" "sf \<notin> set (objects (bpy_data (final (re_pose_cameras h a) w)))"
      "disk (final (re_pose_cameras h a) w)
         = (disk w)(str (output_path a) \<mapsto> bpy_data (final (re_pose_cameras h a) w))"
proof -
  obtain r w' evs where run: "re_pose_cameras h a w = (r, w', evs)"
    by (cases "re_pose_cameras h a w") auto
  have "run_shape a w (r, w', evs)"
    using re_pose_cameras_shape [of a w h] run by simp
  with run show thesis
    unfolding run_shape_def
    by (auto simp: result_def events_def final_def intro: raised saved)
qed

text \<open>
  C7. If any external call of a run raises an error, the run returns that error, the
  raising call is the last call of the run (nothing is attempted after it), the run
  issues no save, and the files on disk are as before.
\<close>

theorem failure_aborts_without_save:
  assumes "(c, Some e) \<in> set (events (re_pose_cameras h a) w)"
  shows "result (re_pose_cameras h a) w = Inl e \<and>
         last (events (re_pose_cameras h a) w) = (c, Some e) \<and>
         (\<forall>ev\<in>set (events (re_pose_cameras h a) w). \<not> is_save (fst ev)) \<and>
         disk (final (re_pose_cameras h a) w) = disk w"
proof (cases rule: re_pose_cameras_cases [of h a w])
  case (raised e' pre c')
  from assms raised(2,3) have same: "(c, Some e) = (c', Some e')"
    by (auto dest: quiet_no_failure)
  have "\<not> is_save (fst ev)" if "ev \<in> set (pre @ [(c', Some e')])" for ev
  proof (cases "ev \<in> set pre")
    case True
    with raised(3) have "is_prefix_call (fst ev)" by (rule quiet_prefix_calls)
    then show ?thesis by (cases "fst ev") (simp_all add: is_prefix_call_def is_save_def)
  next
    case False
    with that have "fst ev = c'" by auto
    with raised(4) show ?thesis
      by (cases c') (simp_all add: is_prefix_call_def is_compute_poses_def is_save_def)
  qed
  with raised same show ?thesis by simp
next
  case (saved pre rigs tok sf nr)
  from assms saved(2,3) have False
    by (auto dest: quiet_no_failure)
  then show ?thesis ..
qed

theorem failure_aborts_without_save_witness:
  "(JoinObjects [wall\<lparr>name := ''room_0.faces''\<rparr>], Some (Failure ''join''))
     \<in> set (events (re_pose_cameras failing_join_host demo_args) (on_disk demo_scene)) \<and>
   result (re_pose_cameras failing_join_host demo_args) (on_disk demo_scene)
     = Inl (Failure ''join'') \<and>
   last (events (re_pose_cameras failing_join_host demo_args) (on_disk demo_scene))
     = (JoinObjects [wall\<lparr>name := ''room_0.faces''\<rparr>], Some (Failure ''join'')) \<and>
   disk (final (re_pose_cameras failing_join_host demo_args) (on_disk demo_scene))
     = disk (on_disk demo_scene)"
proof -
  have f: "(JoinObjects [wall\<lparr>name := ''room_0.faces''\<rparr>], Some (Failure ''join''))
     \<in> set (events (re_pose_cameras failing_join_host demo_args) (on_disk demo_scene))"
    by code_simp
  from failure_aborts_without_save [OF f] f show ?thesis by simp
qed

text \<open>
  C1, as the claim states it, fails: with a solver that raises, the run ends with the
  solver's error, issues no deletion, and the floor surface the join created is still
  among the objects of the scene.
\<close>

theorem floor_surface_leak_counterexample:
  "result (re_pose_cameras failing_solver_host demo_args) (on_disk demo_scene)
     = Inl (Failure ''solver'') \<and>
   (Delete floor_surface, None)
     \<notin> set (events (re_pose_cameras failing_solver_host demo_args) (on_disk demo_scene)) \<and>
   floor_surface
     \<in> set (objects (bpy_data (final (re_pose_cameras failing_solver_host demo_args)
          (on_disk demo_scene))))"
  by code_simp

text \<open>
  C1, amended. When the solver call returns normally, the deletion of the floor surface
  it was given is the next call, the run goes on to save, and the floor surface is not
  among the objects of the final scene. When the solver call raises, the run ends there
  with the solver's error and issues no deletion.
\<close>

theorem floor_surface_deleted_after_solver:
  assumes "(ComputePoses rigs tok sf nr, oc) \<in> set (events (re_pose_cameras h a) w)"
  shows "case oc of
           None \<Rightarrow>
             result (re_pose_cameras h a) w = Inr () \<and>
             (\<exists>pre. events (re_pose_cameras h a) w
                = pre @ [(ComputePoses rigs tok sf nr, None), (Delete sf, None),
                         (SaveAsMainfile (str (output_path a)), None)]) \<and>
             sf \<notin> set (objects (bpy_data (final (re_pose_cameras h a) w)))
         | Some e \<Rightarrow>
             result (re_pose_cameras h a) w = Inl e \<and>
             last (events (re_pose_cameras h a) w) = (ComputePoses rigs tok sf nr, Some e) \<and>
             (\<forall>ev\<in>set (events (re_pose_cameras h a) w). fst ev \<noteq> Delete sf)"
proof (cases rule: re_pose_cameras_cases [of h a w])
  case (raised e' pre c')
  have notin: "(ComputePoses rigs tok sf nr, oc) \<notin> set pre"
    using quiet_prefix_calls [OF raised(3), of "(ComputePoses rigs tok sf nr, oc)"]
    by (auto simp: is_prefix_call_def)
  with assms raised(2) have same: "c' = ComputePoses rigs tok sf nr" "oc = Some e'"
    by auto
  have "fst ev \<noteq> Delete sf" if "ev \<in> set (pre @ [(c', Some e')])" for ev
  proof (cases "ev \<in> set pre")
    case True
    with raised(3) have "is_prefix_call (fst ev)" by (rule quiet_prefix_calls)
    then show ?thesis by (auto simp: is_prefix_call_def)
  next
    case False
    with that same show ?thesis by auto
  qed
  with raised same show ?thesis by simp
next
  case (saved pre rigs' tok' sf' nr')
  have notin: "(ComputePoses rigs tok sf nr, oc) \<notin> set pre"
    using quiet_prefix_calls [OF saved(3), of "(ComputePoses rigs tok sf nr, oc)"]
    by (auto simp: is_prefix_call_def)
  with assms saved(2) have same: "rigs' = rigs" "tok' = tok" "sf' = sf" "nr' = nr" "oc = None"
    by auto
  with saved show ?thesis by auto
qed

theorem floor_surface_deleted_after_solver_witness:
  "(ComputePoses [new_rig] 2 floor_surface [chair], None)
     \<in> set (events (re_pose_cameras demo_host demo_args) (on_disk demo_scene)) \<and>
   result (re_pose_cameras demo_host demo_args) (on_disk demo_scene) = Inr () \<and>
   floor_surface
     \<notin> set (objects (bpy_data (final (re_pose_cameras demo_host demo_args)
          (on_disk demo_scene))))"
proof -
  have f: "(ComputePoses [new_rig] 2 floor_surface [chair], None)
     \<in> set (events (re_pose_cameras demo_host demo_args) (on_disk demo_scene))"
    by code_simp
  from floor_surface_deleted_after_solver [OF f] f show ?thesis by simp
qed

section \<open>The output path\<close>

lemma split_sep_no_sep: "c \<notin> set s \<Longrightarrow> split_sep c s = [s]"
  by (induction s) auto

lemma split_sep_parts_no_sep: "x \<in> set (split_sep c s) \<Longrightarrow> c \<notin> set x"
proof (induction s arbitrary: x)
  case Nil
  then show ?case by simp
next
  case (Cons y s)
  then show ?case
    by (cases "split_sep c s") (auto split: if_splits)
qed

lemma valid_path_of_string: "valid_path (path_of_string s)"
  by (auto simp: valid_path_def path_of_string_def dest: split_sep_parts_no_sep)

lemma stem_chars: "set (stem p) \<subseteq> set (path_name p)"
  by (auto simp: stem_def Let_def dest: in_set_takeD)

lemma path_name_chars: "valid_path p \<Longrightarrow> CHR ''/'' \<notin> set (path_name p)"
  by (auto simp: valid_path_def path_name_def)

lemma root_of_relative: "s \<noteq> [] \<Longrightarrow> hd s \<noteq> CHR ''/'' \<Longrightarrow> root_of s = []"
  by (cases s) (auto simp: root_of_def)

lemma output_name_parts:
  assumes "valid_path p"
  shows "root_of (stem p @ ''_with_new_cameras.blend'') = [] \<and>
         parts (path_of_string (stem p @ ''_with_new_cameras.blend''))
           = [stem p @ ''_with_new_cameras.blend'']"
proof -
  let ?n = "stem p @ ''_with_new_cameras.blend''"
  have no: "CHR ''/'' \<notin> set (stem p)"
    using stem_chars [of p] path_name_chars [OF assms] by auto
  then have "CHR ''/'' \<notin> set ?n" by simp
  then have sp: "split_sep CHR ''/'' ?n = [?n]" by (rule split_sep_no_sep)
  have hd: "hd ?n \<noteq> CHR ''/''"
    using no by (cases "stem p") auto
  have ne: "?n \<noteq> []" by simp
  have "length ?n \<noteq> 1" by simp
  then have dot: "?n \<noteq> ''.''" by (metis length_Cons list.size(3) One_nat_def)
  from root_of_relative [OF ne hd] sp ne dot show ?thesis
    by (simp add: path_of_string_def)
qed

lemma output_path_parts:
  assumes "valid_path (input_blend a)"
  shows "output_path a = Path (root (output_folder a))
           (parts (output_folder a) @ [stem (input_blend a) @ ''_with_new_cameras.blend''])"
  using output_name_parts [OF assms] by (simp add: output_path_def truediv_def)

section \<open>What a successful run saves\<close>

lemma saved_run_bind:
  assumes f: "\<And>x w1. saved_run h a (f x w1)"
  shows "saved_run h a (bind_prog m f w)"
proof (cases rule: bind_prog_cases [of m w f])
  case (fail e w1 evs1)
  then show ?thesis by (simp add: saved_run_def)
next
  case (ok x w1 evs1 r w2 evs2)
  show ?thesis
  proof (cases "r = Inr ()")
    case False
    with ok(3) show ?thesis by (simp add: saved_run_def)
  next
    case True
    with f [of x w1] ok(2) obtain pre rigs tok sf nr s s' where
      e: "evs2 = pre @ [(ComputePoses rigs tok sf nr, None), (Delete sf, None),
                         (SaveAsMainfile (str (output_path a)), None)]" and
      c: "compute_poses h rigs tok sf nr s = (Inr (), s')" and
      d: "bpy_data w2 = delete_objs [sf] s'" and
      k: "disk w2 (str (output_path a)) = Some (delete_objs [sf] s')"
      unfolding saved_run_def by auto
    from e have "evs1 @ evs2 = (evs1 @ pre) @ [(ComputePoses rigs tok sf nr, None),
        (Delete sf, None), (SaveAsMainfile (str (output_path a)), None)]"
      by simp
    with c d k have "\<exists>pre rigs tok sf nr s s'.
            evs1 @ evs2 = pre @ [(ComputePoses rigs tok sf nr, None), (Delete sf, None),
                         (SaveAsMainfile (str (output_path a)), None)] \<and>
            compute_poses h rigs tok sf nr s = (Inr (), s') \<and>
            bpy_data w2 = delete_objs [sf] s' \<and>
            disk w2 (str (output_path a)) = Some (delete_objs [sf] s')"
      by blast
    with ok(3) show ?thesis by (simp add: saved_run_def)
  qed
qed

lemma saved_run_solve:
  "saved_run h a
     (bind_prog (call_scene (ComputePoses rigs tok sf nr) (compute_poses h rigs tok sf nr)) (\<lambda>_.
      bind_prog (butil_delete sf) (\<lambda>_.
      save_as_mainfile (str (output_path a)))) w)"
proof -
  obtain r s' where c: "compute_poses h rigs tok sf nr (bpy_data w) = (r, s')"
    by (cases "compute_poses h rigs tok sf nr (bpy_data w)") auto
  show ?thesis
  proof (cases r)
    case (Inl e)
    with c show ?thesis
      by (simp add: saved_run_def bind_prog_def call_scene_def)
  next
    case (Inr u)
    with c have c': "compute_poses h rigs tok sf nr (bpy_data w) = (Inr (), s')" by simp
    have "\<exists>pre rigs' tok' sf' nr' s s''.
        [(ComputePoses rigs tok sf nr, None), (Delete sf, None),
         (SaveAsMainfile (str (output_path a)), None)]
          = pre @ [(ComputePoses rigs' tok' sf' nr', None), (Delete sf', None),
                   (SaveAsMainfile (str (output_path a)), None)] \<and>
        compute_poses h rigs' tok' sf' nr' s = (Inr (), s'') \<and>
        delete_objs [sf] s' = delete_objs [sf'] s''"
      using c' by (intro exI [of _ "[]"] exI [of _ rigs] exI [of _ tok] exI [of _ sf]
          exI [of _ nr] exI [of _ "bpy_data w"] exI [of _ s']) simp
    with c' show ?thesis
      by (simp add: saved_run_def bind_prog_def call_scene_def outcome_def butil_delete_def
          save_as_mainfile_def)
  qed
qed

lemma re_pose_cameras_saved_run: "saved_run h a (re_pose_cameras h a w)"
  unfolding re_pose_cameras_def
  apply (rule saved_run_bind)
  apply (rule saved_run_bind)
  apply (rule saved_run_bind)
  apply (simp only: split_paired_all prod.case)
  apply (rule saved_run_bind)
  apply (rule saved_run_bind)
  apply (rule saved_run_bind)
  apply (rule saved_run_bind)
  apply (rule saved_run_solve)
  done

lemma re_pose_cameras_first_event:
  "\<exists>oc rest. events (re_pose_cameras h a) w = (OpenMainfile (str (input_blend a)), oc) # rest \<and>
     (oc = None \<longrightarrow> disk w (str (input_blend a)) \<noteq> None)"
  unfolding re_pose_cameras_def events_def
  by (subst bind_prog_def)
     (auto simp: open_mainfile_def split: option.splits prod.splits sum.splits)

lemma last_three_eq:
  "pre @ [a, b, c] = pre' @ [a', b', c'] \<Longrightarrow> pre = pre' \<and> a = a' \<and> b = b' \<and> c = c'"
  by (simp add: append_eq_append_conv)

text \<open>
  C9. When the run returns normally, it started by loading the input file (which
  exists), every call in between returned normally, and it ended with the solver call,
  the deletion of the floor surface and the save under the path \<open>output_path\<close>; the
  final scene is the scene the solver returned without the floor surface, and the file at
  the output path then holds that scene, the other files being as before. For an input
  path as \<^verbatim>\<open>pathlib\<close> builds it, the directory of the output path is the output folder
  and its file name is the stem of the input file followed by
  \<open>_with_new_cameras.blend\<close>.
\<close>

theorem saved_in_output_folder:
  assumes "result (re_pose_cameras h a) w = Inr ()" and "valid_path (input_blend a)"
  shows "(\<exists>mid rigs tok sf nr s s'.
            events (re_pose_cameras h a) w
              = (OpenMainfile (str (input_blend a)), None) # mid @
                [(ComputePoses rigs tok sf nr, None), (Delete sf, None),
                 (SaveAsMainfile (str (output_path a)), None)] \<and>
            quiet mid \<and>
            compute_poses h rigs tok sf nr s = (Inr (), s') \<and>
            bpy_data (final (re_pose_cameras h a) w) = delete_objs [sf] s') \<and>
         disk w (str (input_blend a)) \<noteq> None \<and>
         last (events (re_pose_cameras h a) w) = (SaveAsMainfile (str (output_path a)), None) \<and>
         disk (final (re_pose_cameras h a) w) (str (output_path a))
           = Some (bpy_data (final (re_pose_cameras h a) w)) \<and>
         disk (final (re_pose_cameras h a) w)
           = (disk w)(str (output_path a) \<mapsto> bpy_data (final (re_pose_cameras h a) w)) \<and>
         parent (output_path a) = output_folder a \<and>
         path_name (output_path a) = stem (input_blend a) @ ''_with_new_cameras.blend''"
proof (cases rule: re_pose_cameras_cases [of h a w])
  case (raised e pre c)
  with assms(1) show ?thesis by simp
next
  case (saved pre rigs tok sf nr)
  let ?evs = "events (re_pose_cameras h a) w"
  let ?fin = "final (re_pose_cameras h a) w"
  have "saved_run h a (re_pose_cameras h a w)"
    by (rule re_pose_cameras_saved_run)
  with assms(1) obtain pre' rigs' tok' sf' nr' s s' where
    e: "?evs = pre' @ [(ComputePoses rigs' tok' sf' nr', None), (Delete sf', None),
                       (SaveAsMainfile (str (output_path a)), None)]" and
    c: "compute_poses h rigs' tok' sf' nr' s = (Inr (), s')" and
    d: "bpy_data ?fin = delete_objs [sf'] s'"
    unfolding saved_run_def result_def events_def final_def
    by (cases "re_pose_cameras h a w") auto
  from e saved(2) have same: "pre' = pre"
    by (auto dest: last_three_eq)
  obtain oc rest where
    first: "?evs = (OpenMainfile (str (input_blend a)), oc) # rest" and
    loaded: "oc = None \<longrightarrow> disk w (str (input_blend a)) \<noteq> None"
    using re_pose_cameras_first_event [of h a w] by blast
  from first e same obtain mid where mid: "pre = (OpenMainfile (str (input_blend a)), oc) # mid"
    by (cases pre) auto
  with saved(3) have q: "quiet mid" "oc = None"
    by (simp_all add: quiet_def)
  from e same mid q have ev: "?evs = (OpenMainfile (str (input_blend a)), None) # mid @
      [(ComputePoses rigs' tok' sf' nr', None), (Delete sf', None),
       (SaveAsMainfile (str (output_path a)), None)]"
    by simp
  from ev q(1) c d have 1: "\<exists>mid rigs tok sf nr s s'.
            ?evs = (OpenMainfile (str (input_blend a)), None) # mid @
                [(ComputePoses rigs tok sf nr, None), (Delete sf, None),
                 (SaveAsMainfile (str (output_path a)), None)] \<and>
            quiet mid \<and>
            compute_poses h rigs tok sf nr s = (Inr (), s') \<and>
            bpy_data ?fin = delete_objs [sf] s'"
    by blast
  from loaded q(2) have 2: "disk w (str (input_blend a)) \<noteq> None" by simp
  from ev have 3: "last ?evs = (SaveAsMainfile (str (output_path a)), None)" by simp
  have 4: "disk ?fin (str (output_path a)) = Some (bpy_data ?fin)"
    by (subst saved(5)) simp
  have 5: "parent (output_path a) = output_folder a"
    by (simp add: output_path_parts [OF assms(2)] parent_def)
  have 6: "path_name (output_path a) = stem (input_blend a) @ ''_with_new_cameras.blend''"
    by (simp add: output_path_parts [OF assms(2)] path_name_def)
  from 1 2 3 4 saved(5) 5 6 show ?thesis by blast
qed

theorem saved_in_output_folder_witness:
  "result (re_pose_cameras demo_host demo_args) (on_disk demo_scene) = Inr () \<and>
   valid_path (input_blend demo_args) \<and>
   hd (events (re_pose_cameras demo_host demo_args) (on_disk demo_scene))
     = (OpenMainfile ''in/scene.blend'', None) \<and>
   disk (on_disk demo_scene) ''in/scene.blend'' \<noteq> None \<and>
   last (events (re_pose_cameras demo_host demo_args) (on_disk demo_scene))
     = (SaveAsMainfile ''/data/out/scene_with_new_cameras.blend'', None) \<and>
   disk (final (re_pose_cameras demo_host demo_args) (on_disk demo_scene))
       ''/data/out/scene_with_new_cameras.blend''
     = Some (bpy_data (final (re_pose_cameras demo_host demo_args) (on_disk demo_scene))) \<and>
   parent (output_path demo_args) = output_folder demo_args \<and>
   path_name (output_path demo_args) = ''scene_with_new_cameras.blend''"
proof -
  have r: "result (re_pose_cameras demo_host demo_args) (on_disk demo_scene) = Inr ()"
    by code_simp
  have v: "valid_path (input_blend demo_args)"
    by (simp add: demo_args_def valid_path_of_string)
  have s: "str (output_path demo_args) = ''/data/out/scene_with_new_cameras.blend''"
    by code_simp
  have i: "str (input_blend demo_args) = ''in/scene.blend''"
    by code_simp
  have t: "stem (input_blend demo_args) = ''scene''"
    by code_simp
  note inst = saved_in_output_folder [OF r v]
  from inst obtain mid rigs tok sf nr where
    "events (re_pose_cameras demo_host demo_args) (on_disk demo_scene)
       = (OpenMainfile (str (input_blend demo_args)), None) # mid @
         [(ComputePoses rigs tok sf nr, None), (Delete sf, None),
          (SaveAsMainfile (str (output_path demo_args)), None)]"
    by blast
  then have h: "hd (events (re_pose_cameras demo_host demo_args) (on_disk demo_scene))
      = (OpenMainfile ''in/scene.blend'', None)"
    by (simp add: i)
  from inst have rest:
    "disk (on_disk demo_scene) (str (input_blend demo_args)) \<noteq> None"
    "last (events (re_pose_cameras demo_host demo_args) (on_disk demo_scene))
       = (SaveAsMainfile (str (output_path demo_args)), None)"
    "disk (final (re_pose_cameras demo_host demo_args) (on_disk demo_scene))
       (str (output_path demo_args))
       = Some (bpy_data (final (re_pose_cameras demo_host demo_args) (on_disk demo_scene)))"
    "parent (output_path demo_args) = output_folder demo_args"
    "path_name (output_path demo_args) = stem (input_blend demo_args) @ ''_with_new_cameras.blend''"
    by blast+
  from r v h rest show ?thesis
    by (simp add: s i t)
qed

section \<open>A scene without rooms\<close>

lemma rig_cleaner_run:
  "\<exists>dev. (delete_existing_camera_rigs :: ('p, unit) prog) w
            = (Inr (), final (delete_existing_camera_rigs :: ('p, unit) prog) w, dev) \<and>
          quiet dev \<and> (\<forall>ev\<in>set dev. \<not> is_extract (fst ev))"
  by (auto simp: delete_existing_camera_rigs_def return_prog_def select_objects_delete_def
        call_scene_def final_def outcome_def quiet_def is_prefix_call_def is_extract_def
        split: option.splits)

lemma call_first_event:
  "\<exists>oc rest. snd (snd (bind_prog (call_scene c f) g w)) = (c, oc) # rest"
  by (cases "f (bpy_data w)")
     (auto simp: bind_prog_def call_scene_def split: sum.splits prod.splits)

lemma get_tags_events_quiet:
  "quiet (map (\<lambda>ob. (GetTags ob, None)) xs) \<and>
   (\<forall>ev\<in>set (map (\<lambda>ob. (GetTags ob, None)) xs). \<not> is_extract (fst ev))"
  by (auto simp: quiet_def is_prefix_call_def is_extract_def)

text \<open>
  C8, as the claim states it, fails: in a scene without rooms, with a join that raises
  on the empty list, the classifier returns no room, the join is called with the empty
  list, the run ends there with the join's error, and the solver is never called.
\<close>

theorem zero_rooms_join_counterexample:
  "result (reconstruct_scene_vars failing_join_host) (loaded no_rooms_scene)
     = Inr ([], [chair], [chair]) \<and>
   result (re_pose_cameras failing_join_host demo_args) (on_disk no_rooms_scene)
     = Inl (Failure ''join'') \<and>
   last (events (re_pose_cameras failing_join_host demo_args) (on_disk no_rooms_scene))
     = (JoinObjects [], Some (Failure ''join'')) \<and>
   events (re_pose_cameras failing_join_host demo_args) (on_disk no_rooms_scene)
     = [(OpenMainfile ''in/scene.blend'', None), (GetTags chair, None), (GetTags chair, None),
        (CameraSelectionPreprocessing None [chair], None), (SpawnCameraRigs, None),
        (JoinObjects [], Some (Failure ''join''))]"
  by code_simp

text \<open>
  C8, amended. Take a run whose input file loads, and in whose scene, after the rig
  cleaning, the tag lookup is a query that reports the Room tag for no mesh object; let
  the preprocessing and the rig spawning return normally. Then every call before the
  join returns normally, none of them is a face extraction, and the join is called with
  the empty list. If the join returns a surface, the next call is the solver's, with the
  spawned rigs, the preprocessing token, that surface and all mesh objects as non-room
  objects; if the join raises, the run ends there with the join's error and the solver
  is not called.
\<close>

theorem zero_rooms_reaches_solver:
  fixes h :: "'p host"
  assumes load: "disk w (str (input_blend a)) = Some s0"
    and cleaned: "final (delete_existing_camera_rigs :: ('p, unit) prog) (w\<lparr>bpy_data := s0\<rparr>) = w1"
    and query: "\<forall>ob\<in>set (all_objs (bpy_data w1)).
        get_tags h ob (bpy_data w1) = (Inr (tg ob), bpy_data w1) \<and> Semantics_Room \<notin> tg ob"
    and preprocessed: "camera_selection_preprocessing h None (all_objs (bpy_data w1)) (bpy_data w1)
        = (Inr tok, s2)"
    and spawned: "spawn_camera_rigs h s2 = (Inr rigs, s3)"
  shows "\<exists>pre post.
           events (re_pose_cameras h a) w
             = pre @ [(JoinObjects [], outcome (fst (join_objects h [] s3)))] @ post \<and>
           quiet pre \<and> (\<forall>ev\<in>set pre. \<not> is_extract (fst ev)) \<and>
           (case join_objects h [] s3 of
              (Inl e, s4) \<Rightarrow> post = [] \<and> result (re_pose_cameras h a) w = Inl e
            | (Inr sf, s4) \<Rightarrow>
                (\<exists>oc rest. post = (ComputePoses rigs tok sf (all_objs (bpy_data w1)), oc) # rest))"
proof -
  let ?mesh = "all_objs (bpy_data w1)"
  let ?L = "map (\<lambda>ob. (GetTags ob, None :: error option) :: 'p event) ?mesh"
  let ?p = "str (input_blend a)"
  let ?tail = "\<lambda>sf. bind_prog (call_scene (ComputePoses rigs tok sf ?mesh)
                  (compute_poses h rigs tok sf ?mesh)) (\<lambda>_.
               bind_prog (butil_delete sf) (\<lambda>_.
               save_as_mainfile (str (output_path a))))"
  obtain dev :: "'p event list" where
    d: "delete_existing_camera_rigs (w\<lparr>bpy_data := s0\<rparr>) = (Inr (), w1, dev)" and
    dq: "quiet dev" "\<forall>ev\<in>set dev. \<not> is_extract (fst ev)"
    using rig_cleaner_run [of "w\<lparr>bpy_data := s0\<rparr>", where 'p = 'p] cleaned by auto
  have o: "open_mainfile ?p w = (Inr (), w\<lparr>bpy_data := s0\<rparr>, [(OpenMainfile ?p, None :: error option) :: 'p event])"
    using load by (simp add: open_mainfile_def)
  have q: "\<forall>ob\<in>set ?mesh. get_tags h ob (bpy_data w1) = (Inr (tg ob), bpy_data w1)"
    using query by simp
  have none: "filter (\<lambda>ob. Semantics_Room \<in> tg ob) ?mesh = []"
    using query by (simp add: filter_empty_conv)
  have all: "filter (\<lambda>ob. Semantics_Room \<notin> tg ob) ?mesh = ?mesh"
    using query by (simp add: filter_id_conv)
  have c: "reconstruct_scene_vars h w1 = (Inr ([], ?mesh, ?mesh), w1, ?L @ ?L)"
    using reconstruct_scene_vars_query [OF q] by (simp add: none all)
  have p: "call_scene (CameraSelectionPreprocessing None ?mesh)
             (camera_selection_preprocessing h None ?mesh) w1
           = (Inr tok, w1\<lparr>bpy_data := s2\<rparr>,
              [(CameraSelectionPreprocessing None ?mesh, None :: error option) :: 'p event])"
    using preprocessed by (simp add: call_scene_def outcome_def)
  have s: "call_scene SpawnCameraRigs (spawn_camera_rigs h) (w1\<lparr>bpy_data := s2\<rparr>)
           = (Inr rigs, w1\<lparr>bpy_data := s3\<rparr>, [(SpawnCameraRigs, None :: error option) :: 'p event])"
    using spawned by (simp add: call_scene_def outcome_def)
  obtain rj s4 where j: "join_objects h [] s3 = (rj, s4)"
    by (cases "join_objects h [] s3") auto
  have jc: "call_scene (JoinObjects []) (join_objects h []) (w1\<lparr>bpy_data := s3\<rparr>)
           = (rj, w1\<lparr>bpy_data := s4\<rparr>, [(JoinObjects [], outcome rj) :: 'p event])"
    using j by (simp add: call_scene_def)
  let ?pre = "[(OpenMainfile ?p, None)] @ dev @ ?L @ ?L @
      [(CameraSelectionPreprocessing None ?mesh, None), (SpawnCameraRigs, None)]"
  have run: "re_pose_cameras h a w =
      (case rj of
         Inl e \<Rightarrow> (Inl e, w1\<lparr>bpy_data := s4\<rparr>, ?pre @ [(JoinObjects [], outcome rj)])
       | Inr sf \<Rightarrow>
           (fst (?tail sf (w1\<lparr>bpy_data := s4\<rparr>)), fst (snd (?tail sf (w1\<lparr>bpy_data := s4\<rparr>))),
            ?pre @ [(JoinObjects [], outcome rj)] @ snd (snd (?tail sf (w1\<lparr>bpy_data := s4\<rparr>)))))"
    unfolding re_pose_cameras_def
    apply (subst bind_prog_def, simp only: o prod.case sum.case)
    apply (subst bind_prog_def, simp only: d prod.case sum.case)
    apply (subst bind_prog_def, simp only: c prod.case sum.case)
    apply (subst bind_prog_def, simp only: p prod.case sum.case)
    apply (subst bind_prog_def, simp only: s prod.case sum.case)
    apply (subst bind_prog_def, simp only: map_prog.simps return_prog_def prod.case sum.case)
    apply (subst bind_prog_def, simp only: jc prod.case sum.case)
    apply (cases rj)
     apply (simp_all add: split_beta)
    done
  have preq: "quiet ?pre" "\<forall>ev\<in>set ?pre. \<not> is_extract (fst ev)"
    using dq get_tags_events_quiet [of ?mesh]
    by (auto simp: quiet_def is_prefix_call_def is_extract_def)
  show ?thesis
  proof (cases rj)
    case (Inl e)
    with run have "events (re_pose_cameras h a) w = ?pre @ [(JoinObjects [], outcome rj)] @ []"
      "result (re_pose_cameras h a) w = Inl e"
      by (simp_all add: events_def result_def)
    with preq j Inl show ?thesis
      by (intro exI [of _ ?pre] exI [of _ "[]"]) simp
  next
    case (Inr sf)
    obtain oc rest where t: "snd (snd (?tail sf (w1\<lparr>bpy_data := s4\<rparr>)))
        = (ComputePoses rigs tok sf ?mesh, oc) # rest"
      using call_first_event by blast
    from run Inr have "events (re_pose_cameras h a) w
        = ?pre @ [(JoinObjects [], outcome rj)] @ (ComputePoses rigs tok sf ?mesh, oc) # rest"
      by (simp add: events_def t)
    with preq j Inr show ?thesis
      by (intro exI [of _ ?pre] exI [of _ "(ComputePoses rigs tok sf ?mesh, oc) # rest"]) simp
  qed
qed

theorem zero_rooms_reaches_solver_witness:
  "disk (on_disk no_rooms_scene) (str (input_blend demo_args)) = Some no_rooms_scene \<and>
   all_objs no_rooms_scene = [chair] \<and>
   get_tags demo_host chair no_rooms_scene = (Inr {}, no_rooms_scene) \<and>
   fst (camera_selection_preprocessing demo_host None [chair] no_rooms_scene) = Inr 1 \<and>
   fst (spawn_camera_rigs demo_host no_rooms_scene) = Inr [new_rig] \<and>
   (JoinObjects [], None)
     \<in> set (events (re_pose_cameras demo_host demo_args) (on_disk no_rooms_scene)) \<and>
   (\<exists>oc. (ComputePoses [new_rig] 1 floor_surface [chair], oc)
     \<in> set (events (re_pose_cameras demo_host demo_args) (on_disk no_rooms_scene)))"
proof -
  let ?tg = "\<lambda>ob. if name ob = ''room_0'' then {Semantics_Room} else {}"
  let ?s3 = "snd (spawn_camera_rigs demo_host no_rooms_scene)"
  define w1 where "w1 = (on_disk no_rooms_scene)\<lparr>bpy_data := no_rooms_scene\<rparr>"
  have p: "str (input_blend demo_args) = ''in/scene.blend''"
    by code_simp
  have load: "disk (on_disk no_rooms_scene) (str (input_blend demo_args)) = Some no_rooms_scene"
    by (simp add: p on_disk_def)
  have cleaned: "final (delete_existing_camera_rigs :: (nat, unit) prog)
      ((on_disk no_rooms_scene)\<lparr>bpy_data := no_rooms_scene\<rparr>) = w1"
    by (simp add: w1_def final_def delete_existing_camera_rigs_def return_prog_def
        on_disk_def no_rooms_scene_def)
  have d1: "bpy_data w1 = no_rooms_scene"
    by (simp add: w1_def)
  have mesh: "all_objs no_rooms_scene = [chair]"
    by (simp add: all_objs_def no_rooms_scene_def chair_def lamp_def)
  have n: "name chair \<noteq> ''room_0''"
    by (simp add: chair_def)
  have query: "\<forall>ob\<in>set (all_objs (bpy_data w1)).
      get_tags demo_host ob (bpy_data w1) = (Inr (?tg ob), bpy_data w1) \<and>
      Semantics_Room \<notin> ?tg ob"
    by (simp add: d1 mesh demo_tags n)
  have pre: "camera_selection_preprocessing demo_host None (all_objs (bpy_data w1)) (bpy_data w1)
      = (Inr 1, no_rooms_scene)"
    by (simp add: d1 mesh demo_host_def)
  have sp: "spawn_camera_rigs demo_host no_rooms_scene = (Inr [new_rig], ?s3)"
    by (simp add: demo_host_def)
  have jn: "join_objects demo_host [] ?s3 = (Inr floor_surface, snd (join_objects demo_host [] ?s3))"
    by (simp add: demo_host_def)
  from zero_rooms_reaches_solver [OF load cleaned query pre sp]
  obtain pre post where
    ev: "events (re_pose_cameras demo_host demo_args) (on_disk no_rooms_scene)
           = pre @ [(JoinObjects [], outcome (fst (join_objects demo_host [] ?s3)))] @ post" and
    "quiet pre" and "\<forall>ev\<in>set pre. \<not> is_extract (fst ev)" and
    solver: "case join_objects demo_host [] ?s3 of
              (Inl e, s4) \<Rightarrow> post = [] \<and>
                result (re_pose_cameras demo_host demo_args) (on_disk no_rooms_scene) = Inl e
            | (Inr sf, s4) \<Rightarrow>
                (\<exists>oc rest. post = (ComputePoses [new_rig] 1 sf (all_objs (bpy_data w1)), oc) # rest)"
    by (elim exE conjE) (rule that)
  from solver obtain oc rest where
    post: "post = (ComputePoses [new_rig] 1 floor_surface [chair], oc) # rest"
    by (subst (asm) jn) (auto simp: d1 mesh)
  have "outcome (fst (join_objects demo_host [] ?s3)) = None"
    by (subst jn) (simp add: outcome_def)
  with ev post have
    "(JoinObjects [], None)
       \<in> set (events (re_pose_cameras demo_host demo_args) (on_disk no_rooms_scene))"
    "(ComputePoses [new_rig] 1 floor_surface [chair], oc)
       \<in> set (events (re_pose_cameras demo_host demo_args) (on_disk no_rooms_scene))"
    by simp_all
  then show ?thesis
    using load mesh n
    by (auto simp: demo_tags demo_host_def)
qed

end
